theory Spec2Isabelle
  imports Main
begin

section \<open>Text\<close>

text \<open>
  A Python \<open>str\<close> is a sequence of Unicode code points; it is modelled as a list of
  natural numbers, one per code point. \<open>lit\<close> turns an ASCII literal into such a list.
\<close>

type_synonym pystr = "nat list"

definition lit :: "string \<Rightarrow> pystr" where
  "lit s = map of_char s"

text \<open>
  \<open>str.strip()\<close> without an argument removes leading and trailing whitespace, where
  whitespace is what \<open>str.isspace\<close> accepts: U+0009 to U+000D, U+001C to U+0020,
  U+0085, U+00A0, U+1680, U+2000 to U+200A, U+2028, U+2029, U+202F, U+205F and U+3000.
\<close>

definition isspace :: "nat \<Rightarrow> bool" where
  "isspace c =
     (c \<in> {9, 10, 11, 12, 13, 28, 29, 30, 31, 32, 133, 160, 5760, 8232, 8233, 8239, 8287, 12288}
      \<or> (8192 \<le> c \<and> c \<le> 8202))"

definition strip :: "pystr \<Rightarrow> pystr" where
  "strip s = rev (dropWhile isspace (rev (dropWhile isspace s)))"

fun join :: "pystr \<Rightarrow> pystr list \<Rightarrow> pystr" where
  "join sep [] = []"
| "join sep [x] = x"
| "join sep (x # y # r) = x @ sep @ join sep (y # r)"

section \<open>Data\<close>

text \<open>
  An article is the dictionary NewsAPI returns: every field the page reads is a string or
  is missing (\<open>None\<close>). \<open>source_name\<close> is \<open>a["source"]["name"]\<close>.
\<close>

record article =
  title :: "pystr option"
  source_name :: "pystr option"
  url :: "pystr option"
  publishedAt :: "pystr option"
  published :: "pystr option"
  description :: "pystr option"

text \<open>\<open>x or ""\<close> on a string or \<open>None\<close>.\<close>

definition or_empty :: "pystr option \<Rightarrow> pystr" where
  "or_empty x = (case x of None \<Rightarrow> [] | Some s \<Rightarrow> s)"

text \<open>
  The text handed to \<open>estimate_tokens\<close>: title, an em dash (U+2014) between spaces,
  description; the articles joined by two newlines.
\<close>

definition concat_text :: "article list \<Rightarrow> pystr" where
  "concat_text articles =
     join [10, 10] (map (\<lambda>a. or_empty (title a) @ [32, 8212, 32] @ or_empty (description a)) articles)"

text \<open>One record of the session history: the dictionary \<open>{"query": ..., "summary": ...}\<close>.\<close>

record hist =
  h_query :: pystr
  h_summary :: pystr

text \<open>
  The four kinds of button of the page: \<open>run_button\<close>, and the buttons with the keys
  \<open>clear_all\<close>, \<open>load_i\<close> and \<open>clear_streamlit\<close>.
\<close>

datatype button = RunButton | ClearAll | LoadButton nat | ClearStreamlit

text \<open>
  What one pass of the script reads from its widgets and its surroundings. Streamlit
  runs the script once per widget event, and a button reads \<open>True\<close> only in the pass
  its click started, so at most one button is pressed in a pass: \<open>pressed\<close>.
  \<open>now\<close> is the clock the cache reads, in seconds.
\<close>

record inputs =
  query :: pystr
  max_articles :: int
  date_from :: "(nat \<times> nat \<times> nat) option"
  date_to :: "(nat \<times> nat \<times> nat) option"
  cache_ttl_minutes :: int
  pressed :: "button option"
  debug :: bool
  now :: nat

text \<open>
  The collaborators. The helpers of \<open>langchain_config\<close> are outside this file: each is a
  function of the hidden state \<open>'b\<close> of that module (its own cache, the network) that
  returns a value or raises (\<open>Inl\<close> holds the exception's message) and a new hidden state.
  \<open>cache_data_clear\<close> and \<open>session_assign\<close> say whether \<open>st.cache_data.clear()\<close> and the
  assignment to \<open>st.session_state['query_input']\<close> raise (\<open>Some\<close> message) or succeed.
  The assignment comes after the text input with the key \<open>query_input\<close> has been
  created in the same pass, which Streamlit refuses with a \<open>StreamlitAPIException\<close>; the
  script keeps both outcomes, and every statement below holds for both.
\<close>

record 'b env =
  get_news_articles :: "'b \<Rightarrow> pystr \<Rightarrow> int \<Rightarrow> (pystr + article list) \<times> 'b"
  get_summary_cached_module :: "'b \<Rightarrow> pystr \<Rightarrow> int \<Rightarrow> (pystr + pystr) \<times> 'b"
  estimate_tokens :: "'b \<Rightarrow> pystr \<Rightarrow> (pystr + int) \<times> 'b"
  clear_module_cache :: "'b \<Rightarrow> (pystr + unit) \<times> 'b"
  cache_data_clear :: "pystr option"
  session_assign :: "pystr option"

text \<open>
  What lives across passes: \<open>st.session_state.history\<close> (\<open>None\<close> while the key is
  absent), the store of \<open>st.cache_data\<close> for \<open>get_summary_cached_ui\<close> (keyed by the three
  arguments, each entry with the time it was stored) and the hidden state of the helpers.
\<close>

type_synonym cache_key = "pystr \<times> int \<times> int option"

record 'b world =
  history :: "hist list option"
  ui_cache :: "cache_key \<rightharpoonup> pystr \<times> nat"
  backend :: 'b

definition hist_list :: "hist list option \<Rightarrow> hist list" where
  "hist_list h = (case h of None \<Rightarrow> [] | Some xs \<Rightarrow> xs)"

section \<open>What a pass does\<close>

text \<open>The messages of \<open>st.warning\<close>, \<open>st.error\<close>, \<open>st.info\<close> and \<open>st.success\<close>.\<close>

datatype msg =
    EmptyQuery
  | FetchFailed pystr
  | NoArticles
  | TokenEstimate int
  | HighTokens
  | SummarizationError pystr
  | ClearedCaches
  | ClearedStreamlit
  | ClearFailed

text \<open>
  Everything a pass does, in order: the elements it renders and the calls it makes.
  \<open>Render\<close> is an element with a fixed text, named by it.
\<close>

datatype event =
    Render string
  | ButtonShown button
  | LoadShown nat pystr
  | SelectboxShown "pystr list"
  | Spinner string
  | WarningShown msg
  | ErrorShown msg
  | InfoShown msg
  | SuccessShown msg
  | FoundShown nat pystr
  | Columns nat
  | CardShown article
  | SummaryShown pystr
  | DownloadShown pystr
  | DebugShown "hist list option"
  | LogException string
  | Uncaught pystr
  | FetchCall pystr int "pystr + article list"
  | SummaryUICall pystr int "int option"
  | SummaryModuleCall pystr int "pystr + pystr"
  | SummaryUIReturn "pystr + pystr"
  | EstimateCall pystr "pystr + int"
  | ClearModuleCall "pystr + unit"
  | CacheCleared
  | SetQueryInput pystr
  | RerunRequested

text \<open>
  How a pass ends: it reaches the end of the script, it asks for a rerun (with the query
  it stored for the text input), or an exception nobody catches stops it.
\<close>

datatype status = Done | Rerun pystr | Crashed pystr

section \<open>The caching wrapper\<close>

text \<open>
  \<open>@st.cache_data(ttl=60 * 60 * 24)\<close> around \<open>get_summary_cached_ui\<close>: a stored entry
  for the same three arguments that is younger than the TTL is returned without running
  the body; otherwise the body runs, and its value is stored unless it raises.
  The body calls \<open>get_summary_cached_module(query, max_articles)\<close>.
\<close>

definition ui_cache_ttl :: nat where
  "ui_cache_ttl = 60 * 60 * 24"

definition cache_lookup :: "nat \<Rightarrow> (cache_key \<rightharpoonup> pystr \<times> nat) \<Rightarrow> cache_key \<Rightarrow> pystr option" where
  "cache_lookup t c k =
     (case c k of
        None \<Rightarrow> None
      | Some (v, stored) \<Rightarrow> if t < stored + ui_cache_ttl then Some v else None)"

definition get_summary_ui_body ::
  "'b env \<Rightarrow> 'b \<Rightarrow> pystr \<Rightarrow> int \<Rightarrow> int option \<Rightarrow> (pystr + pystr) \<times> 'b" where
  "get_summary_ui_body env b q n ttl_override = get_summary_cached_module env b q n"

definition get_summary_cached_ui ::
  "'b env \<Rightarrow> nat \<Rightarrow> 'b world \<Rightarrow> pystr \<Rightarrow> int \<Rightarrow> int option
     \<Rightarrow> (pystr + pystr) \<times> 'b world \<times> event list" where
  "get_summary_cached_ui env t w q n ttl_override =
     (case cache_lookup t (ui_cache w) (q, n, ttl_override) of
        Some v \<Rightarrow> (Inr v, w, [SummaryUICall q n ttl_override, SummaryUIReturn (Inr v)])
      | None \<Rightarrow>
          (case get_summary_ui_body env (backend w) q n ttl_override of
             (r, b) \<Rightarrow>
               (r,
                w\<lparr>ui_cache :=
                     (case r of
                        Inl e \<Rightarrow> ui_cache w
                      | Inr v \<Rightarrow> (ui_cache w)((q, n, ttl_override) \<mapsto> (v, t))),
                   backend := b\<rparr>,
                [SummaryUICall q n ttl_override, SummaryModuleCall q n r, SummaryUIReturn r])))"

section \<open>The script\<close>

text \<open>
  The script of \<open>app.py\<close>, part by part in the order it runs. Each part takes what
  lives across passes and returns it with the events of the part. The imports, the
  page configuration and the logger set-up at the top of the file render nothing and
  are left out.
\<close>

subsection \<open>Sidebar controls\<close>

definition sidebar_controls :: "event list" where
  "sidebar_controls =
     [Render ''sidebar: title Controls'',
      Render ''sidebar: text_input Query (company, sector, event)'',
      Render ''sidebar: slider Max articles'',
      Render ''sidebar: date_input From (optional)'',
      Render ''sidebar: date_input To (optional)'',
      Render ''sidebar: ---'',
      Render ''sidebar: number_input Cache TTL (minutes)'',
      Render ''sidebar: Tip'',
      Render ''sidebar: ---'',
      ButtonShown RunButton,
      ButtonShown ClearAll]"

definition sidebar_end :: "event list" where
  "sidebar_end = [Render ''sidebar: ---'', Render ''sidebar: caption'']"

text \<open>
  \<open>st.button(..., key="clear_all") and (st.cache_data.clear(), clear_module_cache(),
  st.success("Cleared caches."))\<close>: nothing here catches an exception.
\<close>

definition sidebar :: "'b env \<Rightarrow> inputs \<Rightarrow> 'b world \<Rightarrow> pystr option \<times> 'b world \<times> event list" where
  "sidebar env inp w =
     (if pressed inp \<noteq> Some ClearAll then (None, w, sidebar_controls @ sidebar_end)
      else
        (case cache_data_clear env of
           Some e \<Rightarrow> (Some e, w, sidebar_controls @ [Uncaught e])
         | None \<Rightarrow>
             (case clear_module_cache env (backend w) of
                (Inl e, b) \<Rightarrow>
                  (Some e, w\<lparr>ui_cache := Map.empty, backend := b\<rparr>,
                   sidebar_controls @ [CacheCleared, ClearModuleCall (Inl e), Uncaught e])
              | (Inr u, b) \<Rightarrow>
                  (None, w\<lparr>ui_cache := Map.empty, backend := b\<rparr>,
                   sidebar_controls
                   @ [CacheCleared, ClearModuleCall (Inr u), SuccessShown ClearedCaches]
                   @ sidebar_end))))"

subsection \<open>Top row\<close>

definition top_row :: "'b world \<Rightarrow> event list" where
  "top_row w =
     [Render ''columns [3, 1]'',
      Render ''header Equity Research'',
      Render ''Enter a query on the left, then click Run'']
     @ (case history w of
          None \<Rightarrow> []
        | Some h \<Rightarrow> if h = [] then [] else [SelectboxShown (map h_query (take 10 h))])"

subsection \<open>Run flow\<close>

text \<open>
  The cards: rows of two columns over the first thirty articles, the inner loop leaving
  at the first index past the end. \<open>CardShown a\<close> is
  \<open>st.markdown(pretty_article_card(a))\<close>: the card is recorded by its article, the markdown
  text that \<open>pretty_article_card\<close> builds from it is not computed. On an article whose
  fields are strings or missing, \<open>pretty_article_card\<close> raises nothing (the date parsing
  has its own \<open>try\<close>).
\<close>

definition card_cols :: "article list \<Rightarrow> nat \<Rightarrow> event list" where
  "card_cols articles i =
     (if i \<ge> length articles then []
      else CardShown (articles ! i)
           # (if i + 1 \<ge> length articles then [] else [CardShown (articles ! (i + 1))]))"

function card_rows :: "article list \<Rightarrow> nat \<Rightarrow> event list" where
  "card_rows articles i =
     (if i < min (length articles) 30
      then Columns 2 # card_cols articles i @ card_rows articles (i + 2)
      else [])"
  by pat_completeness auto
termination
  by (relation "measure (\<lambda>(articles, i). 30 - i)") auto

declare card_rows.simps [simp del]

definition fetch_articles ::
  "'b env \<Rightarrow> inputs \<Rightarrow> 'b world \<Rightarrow> article list \<times> 'b world \<times> event list" where
  "fetch_articles env inp w =
     (case get_news_articles env (backend w) (query inp) (max_articles inp) of
        (Inl e, b) \<Rightarrow>
          ([], w\<lparr>backend := b\<rparr>,
           [Spinner ''Fetching articles from NewsAPI...'',
            FetchCall (query inp) (max_articles inp) (Inl e),
            ErrorShown (FetchFailed e),
            LogException ''NewsAPI fetch failed''])
      | (Inr articles, b) \<Rightarrow>
          (articles, w\<lparr>backend := b\<rparr>,
           [Spinner ''Fetching articles from NewsAPI...'',
            FetchCall (query inp) (max_articles inp) (Inr articles)]))"

definition token_estimate :: "'b env \<Rightarrow> article list \<Rightarrow> 'b world \<Rightarrow> 'b world \<times> event list" where
  "token_estimate env articles w =
     (case estimate_tokens env (backend w) (concat_text articles) of
        (Inl e, b) \<Rightarrow>
          (w\<lparr>backend := b\<rparr>,
           [EstimateCall (concat_text articles) (Inl e), LogException ''Token estimation failed''])
      | (Inr tokens_est, b) \<Rightarrow>
          (w\<lparr>backend := b\<rparr>,
           [EstimateCall (concat_text articles) (Inr tokens_est), InfoShown (TokenEstimate tokens_est)]
           @ (if tokens_est > 8000 then [WarningShown HighTokens] else [])))"

text \<open>\<open>summary\<close> is \<open>None\<close> when the wrapper raises.\<close>

definition summarize ::
  "'b env \<Rightarrow> inputs \<Rightarrow> 'b world \<Rightarrow> pystr option \<times> 'b world \<times> event list" where
  "summarize env inp w =
     (case get_summary_cached_ui env (now inp) w (query inp) (max_articles inp) None of
        (Inl e, w', ev) \<Rightarrow>
          (None, w',
           Spinner ''Generating summary with LLM (cached)...'' # ev
           @ [ErrorShown (SummarizationError e), LogException ''Summarization error''])
      | (Inr s, w', ev) \<Rightarrow>
          (Some s, w', Spinner ''Generating summary with LLM (cached)...'' # ev))"

text \<open>\<open>if summary:\<close> shows the summary and saves it at the front of the history.\<close>

definition show_summary :: "inputs \<Rightarrow> pystr option \<Rightarrow> 'b world \<Rightarrow> 'b world \<times> event list" where
  "show_summary inp summary w =
     (case summary of
        None \<Rightarrow> (w, [])
      | Some s \<Rightarrow>
          if s = [] then (w, [])
          else
            (w\<lparr>history :=
                 Some (\<lparr>h_query = query inp, h_summary = s\<rparr>
                       # (case history w of None \<Rightarrow> [] | Some h \<Rightarrow> h))\<rparr>,
             [Render ''---'', Render ''## Summary'', SummaryShown s, DownloadShown s]))"

definition run_flow :: "'b env \<Rightarrow> inputs \<Rightarrow> 'b world \<Rightarrow> 'b world \<times> event list" where
  "run_flow env inp w =
     (if pressed inp \<noteq> Some RunButton then (w, [])
      else if query inp = [] \<or> strip (query inp) = [] then (w, [WarningShown EmptyQuery])
      else
        (case fetch_articles env inp w of
           (articles, w1, e1) \<Rightarrow>
             if articles = [] then (w1, e1 @ [InfoShown NoArticles])
             else
               (case token_estimate env articles w1 of
                  (w2, e2) \<Rightarrow>
                    (case summarize env inp w2 of
                       (summary, w3, e3) \<Rightarrow>
                         (case show_summary inp summary w3 of
                            (w4, e4) \<Rightarrow>
                              (w4,
                               e1
                               @ [Render ''### Fetched articles'',
                                  FoundShown (length articles) (query inp)]
                               @ card_rows articles 0 @ e2 @ e3 @ e4))))))"

subsection \<open>Sidebar history\<close>

text \<open>
  One \<open>Load:\<close> button per record of \<open>history[:10]\<close>. The pressed one stores the record's
  query for the text input and asks for a rerun, which ends the pass there; when the
  session state refuses the assignment, the exception ends the pass, as nothing
  catches it.
\<close>

fun load_buttons :: "'b env \<Rightarrow> inputs \<Rightarrow> nat \<Rightarrow> hist list \<Rightarrow> status option \<times> event list" where
  "load_buttons env inp i [] = (None, [])"
| "load_buttons env inp i (h # hs) =
     (if pressed inp = Some (LoadButton i)
      then
        (case session_assign env of
           Some e \<Rightarrow> (Some (Crashed e), [LoadShown i (h_query h), Uncaught e])
         | None \<Rightarrow>
             (Some (Rerun (h_query h)),
              [LoadShown i (h_query h), SetQueryInput (h_query h), RerunRequested]))
      else
        (case load_buttons env inp (Suc i) hs of
           (r, ev) \<Rightarrow> (r, LoadShown i (h_query h) # ev)))"

definition sidebar_history :: "'b env \<Rightarrow> inputs \<Rightarrow> 'b world \<Rightarrow> status option \<times> event list" where
  "sidebar_history env inp w =
     (case history w of
        None \<Rightarrow> (None, [])
      | Some h \<Rightarrow>
          if h = [] then (None, [])
          else
            (case load_buttons env inp 0 (take 10 h) of
               (r, ev) \<Rightarrow> (r, [Render ''sidebar: ---'', Render ''sidebar: ### Recent queries''] @ ev)))"

subsection \<open>Developer tools and footer\<close>

definition developer_tools :: "'b env \<Rightarrow> inputs \<Rightarrow> 'b world \<Rightarrow> 'b world \<times> event list" where
  "developer_tools env inp w =
     (let pre = [Render ''expander Developer tools & debug'',
                 Render ''Inspect or clear caches'',
                 ButtonShown ClearStreamlit];
          post = [Render ''Module-level cached function available'']
      in if pressed inp \<noteq> Some ClearStreamlit then (w, pre @ post)
         else
           (case cache_data_clear env of
              Some e \<Rightarrow> (w, pre @ [ErrorShown ClearFailed] @ post)
            | None \<Rightarrow>
                (w\<lparr>ui_cache := Map.empty\<rparr>,
                 pre @ [CacheCleared, SuccessShown ClearedStreamlit] @ post)))"

definition footer :: "inputs \<Rightarrow> 'b world \<Rightarrow> event list" where
  "footer inp w =
     [Render ''---'', Render ''Notes''] @ (if debug inp then [DebugShown (history w)] else [])"

subsection \<open>One pass, and one interaction\<close>

definition script :: "'b env \<Rightarrow> inputs \<Rightarrow> 'b world \<Rightarrow> status \<times> 'b world \<times> event list" where
  "script env inp w =
     (case sidebar env inp w of
        (Some e, w1, e1) \<Rightarrow> (Crashed e, w1, e1)
      | (None, w1, e1) \<Rightarrow>
          (case run_flow env inp w1 of
             (w2, e2) \<Rightarrow>
               (case sidebar_history env inp w2 of
                  (Some r, e3) \<Rightarrow> (r, w2, e1 @ top_row w1 @ e2 @ e3)
                | (None, e3) \<Rightarrow>
                    (case developer_tools env inp w2 of
                       (w3, e4) \<Rightarrow>
                         (Done, w3, e1 @ top_row w1 @ e2 @ e3 @ e4 @ footer inp w3)))))"

text \<open>
  An interaction is the pass the user's event starts and, when that pass asks for a
  rerun, the pass that follows: no button is pressed in it, and the text input holds the
  query the first pass stored.
\<close>

definition interaction :: "'b env \<Rightarrow> inputs \<Rightarrow> 'b world \<Rightarrow> status \<times> 'b world \<times> event list" where
  "interaction env inp w =
     (case script env inp w of
        (Rerun q, w1, e1) \<Rightarrow>
          (case script env (inp\<lparr>query := q, pressed := None\<rparr>) w1 of
             (r, w2, e2) \<Rightarrow> (r, w2, e1 @ e2))
      | (Done, w1, e1) \<Rightarrow> (Done, w1, e1)
      | (Crashed e, w1, e1) \<Rightarrow> (Crashed e, w1, e1))"

section \<open>Reading a trace\<close>

text \<open>
  The events that the parts of the script around the run flow can produce: layout,
  buttons, the history selector, the cache handlers' effects and messages, the debug
  dump. Fetching, summarizing, their messages and the summary are not among them.
\<close>

fun quiet :: "event \<Rightarrow> bool" where
  "quiet (Render _) = True"
| "quiet (ButtonShown _) = True"
| "quiet (LoadShown _ _) = True"
| "quiet (SelectboxShown _) = True"
| "quiet (SuccessShown _) = True"
| "quiet (ErrorShown ClearFailed) = True"
| "quiet (DebugShown _) = True"
| "quiet (Uncaught _) = True"
| "quiet (ClearModuleCall _) = True"
| "quiet CacheCleared = True"
| "quiet (SetQueryInput _) = True"
| "quiet RerunRequested = True"
| "quiet _ = False"

text \<open>
  The events that only render the page: fixed elements, buttons, the history selector
  and the debug dump.
\<close>

fun layout :: "event \<Rightarrow> bool" where
  "layout (Render _) = True"
| "layout (ButtonShown _) = True"
| "layout (LoadShown _ _) = True"
| "layout (SelectboxShown _) = True"
| "layout (DebugShown _) = True"
| "layout _ = False"

text \<open>
  The events between the fetch and the summarization: the cards and the token estimate.
\<close>

fun minor :: "event \<Rightarrow> bool" where
  "minor (Columns _) = True"
| "minor (CardShown _) = True"
| "minor (EstimateCall _ _) = True"
| "minor (InfoShown _) = True"
| "minor (WarningShown HighTokens) = True"
| "minor (LogException _) = True"
| "minor _ = False"

text \<open>
  What the run flow shows once the wrapper has returned or raised, and what it saves.
\<close>

definition summary_events :: "pystr + pystr \<Rightarrow> event list" where
  "summary_events r =
     (case r of
        Inl e \<Rightarrow> [ErrorShown (SummarizationError e), LogException ''Summarization error'']
      | Inr s \<Rightarrow>
          if s = [] then []
          else [Render ''---'', Render ''## Summary'', SummaryShown s, DownloadShown s])"

definition saved :: "inputs \<Rightarrow> pystr + pystr \<Rightarrow> hist list option \<Rightarrow> hist list option" where
  "saved inp r h =
     (case r of
        Inl e \<Rightarrow> h
      | Inr s \<Rightarrow>
          if s = [] then h
          else Some (\<lparr>h_query = query inp, h_summary = s\<rparr> # hist_list h))"

text \<open>
  The calls the run flow is about: fetching (\<open>get_news_articles\<close>) and summarizing (the
  wrapper \<open>get_summary_cached_ui\<close> and, inside it, \<open>get_summary_cached_module\<close>); and the
  two calls the script itself makes, the fetch and the wrapper.
\<close>

fun fetch_or_summarize :: "event \<Rightarrow> bool" where
  "fetch_or_summarize (FetchCall _ _ _) = True"
| "fetch_or_summarize (SummaryUICall _ _ _) = True"
| "fetch_or_summarize (SummaryModuleCall _ _ _) = True"
| "fetch_or_summarize _ = False"

fun fetch_or_wrapper :: "event \<Rightarrow> bool" where
  "fetch_or_wrapper (FetchCall _ _ _) = True"
| "fetch_or_wrapper (SummaryUICall _ _ _) = True"
| "fetch_or_wrapper _ = False"

text \<open>
  The summaries a trace shows, and the successful runs of an interaction: one record
  per summary shown, with the query of that interaction.
\<close>

fun summary_of :: "event \<Rightarrow> pystr list" where
  "summary_of (SummaryShown s) = [s]"
| "summary_of _ = []"

definition successes :: "inputs \<Rightarrow> event list \<Rightarrow> hist list" where
  "successes inp ev = map (\<lambda>s. \<lparr>h_query = query inp, h_summary = s\<rparr>) (concat (map summary_of ev))"

text \<open>
  A session: interactions one after the other, each on what the one before left. It
  returns what is left at the end and the successful runs in the order they happened.
\<close>

fun session :: "'b env \<Rightarrow> inputs list \<Rightarrow> 'b world \<Rightarrow> 'b world \<times> hist list" where
  "session env [] w = (w, [])"
| "session env (inp # rest) w =
     (case interaction env inp w of
        (st, w1, ev) \<Rightarrow>
          (case session env rest w1 of
             (w2, chronicle) \<Rightarrow> (w2, successes inp ev @ chronicle)))"

text \<open>
  What a trace displays of the history: the options of the \<open>Recent queries\<close> selector
  and the \<open>Load:\<close> buttons (position and query), in the order rendered. \<open>recent\<close> is the
  queries of \<open>history[:10]\<close>.
\<close>

fun selectbox_of :: "event \<Rightarrow> pystr list list" where
  "selectbox_of (SelectboxShown options) = [options]"
| "selectbox_of _ = []"

fun load_of :: "event \<Rightarrow> (nat \<times> pystr) list" where
  "load_of (LoadShown i q) = [(i, q)]"
| "load_of _ = []"

definition selectboxes :: "event list \<Rightarrow> pystr list list" where
  "selectboxes ev = concat (map selectbox_of ev)"

definition load_list :: "event list \<Rightarrow> (nat \<times> pystr) list" where
  "load_list ev = concat (map load_of ev)"

definition recent :: "hist list option \<Rightarrow> pystr list" where
  "recent h = map h_query (take 10 (hist_list h))"

text \<open>
  Two readings of the controls are the same for the script when they agree on the
  query, \<open>max_articles\<close>, the pressed button, the debug flag and the clock.
\<close>

definition same_controls :: "inputs \<Rightarrow> inputs \<Rightarrow> bool" where
  "same_controls a b =
     (query a = query b \<and> max_articles a = max_articles b \<and> pressed a = pressed b
      \<and> debug a = debug b \<and> now a = now b)"


text \<open>
  Pressing a button makes a difference: the interaction does not do what it does, from
  the same session and with the same controls, when no button is pressed.
\<close>

definition responds :: "'b env \<Rightarrow> inputs \<Rightarrow> 'b world \<Rightarrow> button \<Rightarrow> bool" where
  "responds env inp w b =
     (snd (snd (interaction env (inp\<lparr>pressed := Some b\<rparr>) w))
        \<noteq> snd (snd (interaction env (inp\<lparr>pressed := None\<rparr>) w)))"

section \<open>A concrete session\<close>

text \<open>
  Collaborators that always find one article and always return the summary \<open>ok\<close>, the
  hidden state counting the summarizations, with a Streamlit that refuses the
  assignment of a \<open>Load:\<close> button; the query \<open>ACME\<close> with the Run button pressed; a
  fresh session.
\<close>

definition demo_article :: article where
  "demo_article = \<lparr>title = Some (lit ''Results''), source_name = None, url = None,
     publishedAt = None, published = None, description = None\<rparr>"

definition demo_env :: "nat env" where
  "demo_env = \<lparr>get_news_articles = (\<lambda>b q n. (Inr [demo_article], b)),
     get_summary_cached_module = (\<lambda>b q n. (Inr (lit ''ok''), Suc b)),
     estimate_tokens = (\<lambda>b t. (Inr 12, b)),
     clear_module_cache = (\<lambda>b. (Inr (), 0)),
     cache_data_clear = None,
     session_assign = Some (lit ''StreamlitAPIException'')\<rparr>"

definition demo_inputs :: inputs where
  "demo_inputs = \<lparr>query = lit ''ACME'', max_articles = 20, date_from = None, date_to = None,
     cache_ttl_minutes = 60, pressed = Some RunButton, debug = False, now = 100\<rparr>"

definition demo_world :: "nat world" where
  "demo_world = \<lparr>history = None, ui_cache = Map.empty, backend = 0\<rparr>"

text \<open>The same collaborators with NewsAPI failing, and with the summarization failing.\<close>

definition fetch_down_env :: "nat env" where
  "fetch_down_env = demo_env\<lparr>get_news_articles := (\<lambda>b q n. (Inl (lit ''timeout''), b))\<rparr>"

definition llm_down_env :: "nat env" where
  "llm_down_env = demo_env\<lparr>get_summary_cached_module := (\<lambda>b q n. (Inl (lit ''quota''), b))\<rparr>"

text \<open>
  A session with twelve records in its history, and a pass with no button pressed.
\<close>

definition long_world :: "nat world" where
  "long_world =
     \<lparr>history = Some (map (\<lambda>c. \<lparr>h_query = [c], h_summary = lit ''ok''\<rparr>)
                        [65, 66, 67, 68, 69, 70, 71, 72, 73, 74, 75, 76]),
      ui_cache = Map.empty, backend = 0\<rparr>"

definition idle_inputs :: inputs where
  "idle_inputs = demo_inputs\<lparr>pressed := None\<rparr>"

text \<open>
  The session the concrete run leaves, and later readings of the controls: the same
  query again, and another query.
\<close>

definition seeded_world :: "nat world" where
  "seeded_world =
     \<lparr>history = Some [\<lparr>h_query = lit ''ACME'', h_summary = lit ''ok''\<rparr>],
      ui_cache = [(lit ''ACME'', 20, None) \<mapsto> (lit ''ok'', 100)],
      backend = 1\<rparr>"

definition later_inputs :: inputs where
  "later_inputs = demo_inputs\<lparr>now := 200\<rparr>"

definition xyz_inputs :: inputs where
  "xyz_inputs = later_inputs\<lparr>query := lit ''XYZ''\<rparr>"

section \<open>The parts of the script around the run flow\<close>

lemma strip_empty_iff: "strip s = [] \<longleftrightarrow> list_all isspace s"
proof
  assume "strip s = []"
  then have all: "\<forall>x\<in>set (dropWhile isspace s). isspace x"
    by (simp add: strip_def dropWhile_eq_Nil_conv)
  have "dropWhile isspace s = []"
  proof (rule ccontr)
    assume ne: "dropWhile isspace s \<noteq> []"
    then have "\<not> isspace (hd (dropWhile isspace s))"
      by (rule hd_dropWhile)
    with all ne show False by simp
  qed
  then show "list_all isspace s"
    by (simp add: dropWhile_eq_Nil_conv list_all_iff)
next
  assume "list_all isspace s"
  then have "dropWhile isspace s = []"
    by (simp add: dropWhile_eq_Nil_conv list_all_iff)
  then have "strip s = rev (dropWhile isspace (rev []))"
    unfolding strip_def by (rule arg_cong)
  then show "strip s = []"
    by simp
qed

lemma quiet_sidebar:
  "sidebar env inp w = (r, w1, e1) \<Longrightarrow>
     list_all quiet e1 \<and> history w1 = history w
     \<and> (ui_cache w1 = ui_cache w \<or> ui_cache w1 = Map.empty)
     \<and> (pressed inp \<noteq> Some ClearAll \<longrightarrow> w1 = w \<and> r = None)"
  by (auto simp: sidebar_def sidebar_controls_def sidebar_end_def split: if_splits option.splits prod.splits sum.splits)

lemma quiet_top_row: "list_all quiet (top_row w)"
  by (auto simp: top_row_def split: option.splits)

lemma load_buttons_facts:
  "load_buttons env inp i hs = (r, ev) \<Longrightarrow>
     list_all quiet ev \<and> r \<noteq> Some Done \<and> (r \<noteq> None \<longrightarrow> (\<exists>j. pressed inp = Some (LoadButton j)))"
proof (induction hs arbitrary: i r ev)
  case Nil
  then show ?case by simp
next
  case (Cons h hs)
  show ?case
  proof (cases "pressed inp = Some (LoadButton i)")
    case True
    with Cons.prems show ?thesis by (auto split: option.splits)
  next
    case False
    obtain r' ev' where rec: "load_buttons env inp (Suc i) hs = (r', ev')"
      by (cases "load_buttons env inp (Suc i) hs")
    from Cons.IH [OF rec] Cons.prems False rec show ?thesis by auto
  qed
qed

lemma quiet_sidebar_history: "list_all quiet (snd (sidebar_history env inp w))"
  using load_buttons_facts [of env inp 0]
  by (auto simp: sidebar_history_def split: option.splits prod.splits)

lemma sidebar_history_some:
  "fst (sidebar_history env inp w) = Some r \<Longrightarrow> (\<exists>j. pressed inp = Some (LoadButton j)) \<and> r \<noteq> Done"
  using load_buttons_facts [of env inp 0]
  by (auto simp: sidebar_history_def split: option.splits prod.splits if_splits)

lemma quiet_developer_tools:
  "developer_tools env inp w = (w3, e4) \<Longrightarrow>
     list_all quiet e4 \<and> history w3 = history w
     \<and> (ui_cache w3 = ui_cache w \<or> ui_cache w3 = Map.empty)
     \<and> (pressed inp \<noteq> Some ClearStreamlit \<longrightarrow> w3 = w)"
  by (auto simp: developer_tools_def Let_def split: if_splits option.splits)

lemma quiet_footer: "list_all quiet (footer inp w)"
  by (auto simp: footer_def)

lemma run_flow_idle: "pressed inp \<noteq> Some RunButton \<Longrightarrow> run_flow env inp w = (w, [])"
  by (simp add: run_flow_def)


lemma script_idle:
  assumes "pressed inp \<noteq> Some RunButton" and "script env inp w = (st, w', ev)"
  shows "list_all quiet ev \<and> history w' = history w
         \<and> (ui_cache w' = ui_cache w \<or> ui_cache w' = Map.empty)"
proof -
  obtain r w1 e1 where sb: "sidebar env inp w = (r, w1, e1)"
    by (cases "sidebar env inp w")
  obtain r3 e3 where sh: "sidebar_history env inp w1 = (r3, e3)"
    by (cases "sidebar_history env inp w1")
  obtain w3 e4 where dt: "developer_tools env inp w1 = (w3, e4)"
    by (cases "developer_tools env inp w1")
  have q3: "list_all quiet e3"
    using quiet_sidebar_history [of env inp w1] sh by simp
  from assms sb sh dt quiet_sidebar [OF sb] quiet_developer_tools [OF dt] q3
  show ?thesis
    by (auto simp: script_def run_flow_idle quiet_top_row quiet_footer split: option.splits)
qed

lemma script_rerun_pressed:
  assumes "script env inp w = (Rerun q, w', ev)"
  shows "pressed inp \<noteq> Some RunButton"
proof -
  obtain r w1 e1 where sb: "sidebar env inp w = (r, w1, e1)"
    by (cases "sidebar env inp w")
  obtain w2 e2 where rf: "run_flow env inp w1 = (w2, e2)"
    by (cases "run_flow env inp w1")
  obtain r3 e3 where sh: "sidebar_history env inp w2 = (r3, e3)"
    by (cases "sidebar_history env inp w2")
  from assms sb rf sh sidebar_history_some [of env inp w2]
  show ?thesis
    by (auto simp: script_def split: option.splits prod.splits)
qed

lemma interaction_idle:
  assumes "pressed inp \<noteq> Some RunButton" and "interaction env inp w = (st, w', ev)"
  shows "list_all quiet ev \<and> history w' = history w
         \<and> (ui_cache w' = ui_cache w \<or> ui_cache w' = Map.empty)"
proof -
  obtain s1 w1 e1 where p1: "script env inp w = (s1, w1, e1)"
    by (cases "script env inp w")
  note i1 = script_idle [OF assms(1) p1]
  show ?thesis
  proof (cases s1)
    case Done
    with assms p1 i1 show ?thesis by (simp add: interaction_def)
  next
    case (Crashed e)
    with assms p1 i1 show ?thesis by (simp add: interaction_def)
  next
    case (Rerun q)
    obtain s2 w2 e2 where p2: "script env (inp\<lparr>query := q, pressed := None\<rparr>) w1 = (s2, w2, e2)"
      by (cases "script env (inp\<lparr>query := q, pressed := None\<rparr>) w1")
    have "pressed (inp\<lparr>query := q, pressed := None\<rparr>) \<noteq> Some RunButton" by simp
    from script_idle [OF this p2] Rerun assms p1 p2 i1 show ?thesis
      by (auto simp: interaction_def)
  qed
qed

lemma script_run:
  assumes "pressed inp = Some RunButton" and "run_flow env inp w = (w2, e2)"
  shows "\<exists>pre post. script env inp w = (Done, w2, pre @ e2 @ post)
           \<and> list_all quiet pre \<and> list_all quiet post"
proof -
  have sb: "sidebar env inp w = (None, w, sidebar_controls @ sidebar_end)"
    using assms(1) by (simp add: sidebar_def)
  obtain r3 e3 where sh: "sidebar_history env inp w2 = (r3, e3)"
    by (cases "sidebar_history env inp w2")
  have r3: "r3 = None"
    using sidebar_history_some [of env inp w2] sh assms(1) by (cases r3) auto
  have q3: "list_all quiet e3"
    using quiet_sidebar_history [of env inp w2] sh by simp
  obtain w3 e4 where dt: "developer_tools env inp w2 = (w3, e4)"
    by (cases "developer_tools env inp w2")
  from quiet_developer_tools [OF dt] assms(1) have w3: "w3 = w2" and q4: "list_all quiet e4"
    by auto
  have "script env inp w =
          (Done, w2, (sidebar_controls @ sidebar_end @ top_row w) @ e2 @ (e3 @ e4 @ footer inp w2))"
    using sb assms(2) sh r3 dt w3 by (simp add: script_def)
  moreover have "list_all quiet (sidebar_controls @ sidebar_end @ top_row w)"
    using quiet_sidebar [OF sb] by (simp add: quiet_top_row)
  moreover have "list_all quiet (e3 @ e4 @ footer inp w2)"
    using q3 q4 by (simp add: quiet_footer)
  ultimately show ?thesis by blast
qed

lemma interaction_run:
  assumes "pressed inp = Some RunButton" and "run_flow env inp w = (w2, e2)"
  shows "\<exists>pre post. interaction env inp w = (Done, w2, pre @ e2 @ post)
           \<and> list_all quiet pre \<and> list_all quiet post"
proof -
  from script_run [OF assms] obtain pre post where
    "script env inp w = (Done, w2, pre @ e2 @ post)" "list_all quiet pre" "list_all quiet post"
    by blast
  then show ?thesis by (auto simp: interaction_def)
qed



lemma interaction_split:
  assumes "interaction env inp w = (st, w', ev)"
  shows "\<exists>pre post. ev = pre @ snd (run_flow env inp w) @ post
           \<and> list_all quiet pre \<and> list_all quiet post
           \<and> history w' = history (fst (run_flow env inp w))
           \<and> (ui_cache w' = ui_cache (fst (run_flow env inp w)) \<or> ui_cache w' = Map.empty)
           \<and> (pressed inp = Some RunButton \<longrightarrow> st = Done \<and> w' = fst (run_flow env inp w))"
proof (cases "pressed inp = Some RunButton")
  case True
  obtain w2 e2 where rf: "run_flow env inp w = (w2, e2)"
    by (cases "run_flow env inp w")
  from interaction_run [OF True rf] assms rf show ?thesis by auto
next
  case False
  from interaction_idle [OF False assms] have
    "ev = ev @ snd (run_flow env inp w) @ []" "list_all quiet ev" "list_all quiet []"
    "history w' = history (fst (run_flow env inp w))"
    "ui_cache w' = ui_cache (fst (run_flow env inp w)) \<or> ui_cache w' = Map.empty"
    using False by (simp_all add: run_flow_idle)
  with False show ?thesis by blast
qed

lemma quiet_mem: "list_all quiet xs \<Longrightarrow> e \<in> set xs \<Longrightarrow> quiet e"
  by (simp add: list_all_iff)

lemma interaction_loud:
  assumes "interaction env inp w = (st, w', ev)" and "e \<in> set ev" and "\<not> quiet e"
  shows "e \<in> set (snd (run_flow env inp w))"
proof -
  from interaction_split [OF assms(1)] obtain pre post where
    "ev = pre @ snd (run_flow env inp w) @ post" "list_all quiet pre" "list_all quiet post"
    by blast
  with assms(2,3) quiet_mem show ?thesis by auto
qed

lemma interaction_run_events:
  assumes "interaction env inp w = (st, w', ev)"
  shows "set (snd (run_flow env inp w)) \<subseteq> set ev"
  using interaction_split [OF assms] by auto

section \<open>The run flow\<close>

lemma minor_card_rows: "list_all minor (card_rows articles i)"
proof (induction articles i rule: card_rows.induct)
  case (1 articles i)
  show ?case
  proof (cases "i < min (length articles) 30")
    case True
    have "list_all minor (card_cols articles i)"
      by (simp add: card_cols_def)
    moreover have "card_rows articles i = Columns 2 # card_cols articles i @ card_rows articles (i + 2)"
      by (subst card_rows.simps) (use True in simp)
    ultimately show ?thesis
      using "1.IH" [OF True] by simp
  next
    case False
    have "card_rows articles i = []"
      by (subst card_rows.simps) (use False in simp)
    then show ?thesis by simp
  qed
qed

lemma token_estimate_facts:
  "token_estimate env articles w = (w', ev) \<Longrightarrow>
     list_all minor ev \<and> history w' = history w \<and> ui_cache w' = ui_cache w"
  by (auto simp: token_estimate_def split: prod.splits sum.splits)

lemma get_summary_cached_ui_cases:
  assumes "get_summary_cached_ui env t w q n ov = (r, w', ev)"
  obtains (hit) v stored where "r = Inr v" "w' = w" "ui_cache w (q, n, ov) = Some (v, stored)"
      "t < stored + ui_cache_ttl" "ev = [SummaryUICall q n ov, SummaryUIReturn (Inr v)]"
  | (miss) b where "get_summary_cached_module env (backend w) q n = (r, b)"
      "cache_lookup t (ui_cache w) (q, n, ov) = None"
      "w' = w\<lparr>ui_cache := (case r of Inl e \<Rightarrow> ui_cache w | Inr v \<Rightarrow> (ui_cache w)((q, n, ov) \<mapsto> (v, t))),
               backend := b\<rparr>"
      "ev = [SummaryUICall q n ov, SummaryModuleCall q n r, SummaryUIReturn r]"
  using assms
  by (auto simp: get_summary_cached_ui_def get_summary_ui_body_def cache_lookup_def
      split: option.splits prod.splits if_splits)

lemma summarize_cases:
  assumes "summarize env inp w = (summary, w', ev)"
  obtains (raised) e e3 where
      "get_summary_cached_ui env (now inp) w (query inp) (max_articles inp) None = (Inl e, w', e3)"
      "summary = None"
      "ev = Spinner ''Generating summary with LLM (cached)...'' # e3
            @ [ErrorShown (SummarizationError e), LogException ''Summarization error'']"
  | (returned) s e3 where
      "get_summary_cached_ui env (now inp) w (query inp) (max_articles inp) None = (Inr s, w', e3)"
      "summary = Some s"
      "ev = Spinner ''Generating summary with LLM (cached)...'' # e3"
  using assms
  by (auto simp: summarize_def split: prod.splits sum.splits)

lemma show_summary_cases:
  assumes "show_summary inp summary w = (w', ev)"
  obtains (nothing) "summary = None \<or> summary = Some []" "w' = w" "ev = []"
  | (shown) s where "summary = Some s" "s \<noteq> []"
      "w' = w\<lparr>history := Some (\<lparr>h_query = query inp, h_summary = s\<rparr> # hist_list (history w))\<rparr>"
      "ev = [Render ''---'', Render ''## Summary'', SummaryShown s, DownloadShown s]"
  using assms
  by (auto simp: show_summary_def hist_list_def split: option.splits if_splits)

lemma run_flow_cases:
  assumes "run_flow env inp w = (w2, e2)"
  obtains
    (idle) "pressed inp \<noteq> Some RunButton" "w2 = w" "e2 = []"
  | (blank) "pressed inp = Some RunButton" "query inp = [] \<or> strip (query inp) = []"
      "w2 = w" "e2 = [WarningShown EmptyQuery]"
  | (fetch_failed) e b where "pressed inp = Some RunButton"
      "\<not> (query inp = [] \<or> strip (query inp) = [])"
      "get_news_articles env (backend w) (query inp) (max_articles inp) = (Inl e, b)"
      "w2 = w\<lparr>backend := b\<rparr>"
      "e2 = [Spinner ''Fetching articles from NewsAPI...'',
             FetchCall (query inp) (max_articles inp) (Inl e),
             ErrorShown (FetchFailed e), LogException ''NewsAPI fetch failed'',
             InfoShown NoArticles]"
  | (no_articles) b where "pressed inp = Some RunButton"
      "\<not> (query inp = [] \<or> strip (query inp) = [])"
      "get_news_articles env (backend w) (query inp) (max_articles inp) = (Inr [], b)"
      "w2 = w\<lparr>backend := b\<rparr>"
      "e2 = [Spinner ''Fetching articles from NewsAPI...'',
             FetchCall (query inp) (max_articles inp) (Inr []), InfoShown NoArticles]"
  | (summarized) articles b wt et summary w3 e3 e4 where "pressed inp = Some RunButton"
      "\<not> (query inp = [] \<or> strip (query inp) = [])"
      "get_news_articles env (backend w) (query inp) (max_articles inp) = (Inr articles, b)"
      "articles \<noteq> []"
      "token_estimate env articles (w\<lparr>backend := b\<rparr>) = (wt, et)"
      "summarize env inp wt = (summary, w3, e3)"
      "show_summary inp summary w3 = (w2, e4)"
      "e2 = [Spinner ''Fetching articles from NewsAPI...'',
             FetchCall (query inp) (max_articles inp) (Inr articles),
             Render ''### Fetched articles'', FoundShown (length articles) (query inp)]
            @ card_rows articles 0 @ et @ e3 @ e4"
proof (cases "pressed inp = Some RunButton")
  case False
  with assms idle show ?thesis by (simp add: run_flow_def)
next
  case run: True
  show ?thesis
  proof (cases "query inp = [] \<or> strip (query inp) = []")
    case True
    with assms run blank show ?thesis by (simp add: run_flow_def)
  next
    case guard: False
    obtain r b where f: "get_news_articles env (backend w) (query inp) (max_articles inp) = (r, b)"
      by (cases "get_news_articles env (backend w) (query inp) (max_articles inp)")
    show ?thesis
    proof (cases r)
      case (Inl e)
      with f have "fetch_articles env inp w =
          ([], w\<lparr>backend := b\<rparr>,
           [Spinner ''Fetching articles from NewsAPI...'',
            FetchCall (query inp) (max_articles inp) (Inl e),
            ErrorShown (FetchFailed e), LogException ''NewsAPI fetch failed''])"
        by (simp add: fetch_articles_def)
      with assms run guard have "w2 = w\<lparr>backend := b\<rparr>"
        "e2 = [Spinner ''Fetching articles from NewsAPI...'',
             FetchCall (query inp) (max_articles inp) (Inl e),
             ErrorShown (FetchFailed e), LogException ''NewsAPI fetch failed'',
             InfoShown NoArticles]"
        by (simp_all add: run_flow_def)
      with run guard f Inl fetch_failed show ?thesis by simp
    next
      case (Inr articles)
      with f have fa: "fetch_articles env inp w =
          (articles, w\<lparr>backend := b\<rparr>,
           [Spinner ''Fetching articles from NewsAPI...'',
            FetchCall (query inp) (max_articles inp) (Inr articles)])"
        by (simp add: fetch_articles_def)
      show ?thesis
      proof (cases "articles = []")
        case True
        with assms run guard fa have "w2 = w\<lparr>backend := b\<rparr>"
          "e2 = [Spinner ''Fetching articles from NewsAPI...'',
             FetchCall (query inp) (max_articles inp) (Inr []), InfoShown NoArticles]"
          by (simp_all add: run_flow_def)
        with run guard f Inr True no_articles show ?thesis by simp
      next
        case False
        obtain wt et where te: "token_estimate env articles (w\<lparr>backend := b\<rparr>) = (wt, et)"
          by (cases "token_estimate env articles (w\<lparr>backend := b\<rparr>)")
        obtain summary w3 e3 where su: "summarize env inp wt = (summary, w3, e3)"
          by (cases "summarize env inp wt")
        obtain w4 e4 where sh: "show_summary inp summary w3 = (w4, e4)"
          by (cases "show_summary inp summary w3")
        from assms run guard fa False te su sh have "w2 = w4"
          "e2 = [Spinner ''Fetching articles from NewsAPI...'',
             FetchCall (query inp) (max_articles inp) (Inr articles),
             Render ''### Fetched articles'', FoundShown (length articles) (query inp)]
            @ card_rows articles 0 @ et @ e3 @ e4"
          by (simp_all add: run_flow_def)
        with run guard f Inr False te su sh summarized show ?thesis by simp
      qed
    qed
  qed
qed


lemma summarize_shape:
  assumes "summarize env inp w = (summary, w', ev)"
  shows "\<exists>r mc. ev = [Spinner ''Generating summary with LLM (cached)...'',
                        SummaryUICall (query inp) (max_articles inp) None]
                       @ mc @ SummaryUIReturn r
                       # (case r of
                            Inl e \<Rightarrow> [ErrorShown (SummarizationError e),
                                      LogException ''Summarization error'']
                          | Inr s \<Rightarrow> [])
           \<and> summary = (case r of Inl e \<Rightarrow> None | Inr s \<Rightarrow> Some s)
           \<and> history w' = history w
           \<and> ((mc = [] \<and> ui_cache w' = ui_cache w
                \<and> (\<exists>v stored. r = Inr v
                      \<and> ui_cache w (query inp, max_articles inp, None) = Some (v, stored)))
               \<or> (mc = [SummaryModuleCall (query inp) (max_articles inp) r]
                   \<and> ui_cache w' =
                        (case r of
                           Inl e \<Rightarrow> ui_cache w
                         | Inr v \<Rightarrow> (ui_cache w)((query inp, max_articles inp, None) \<mapsto> (v, now inp)))))"
  using assms
proof (cases rule: summarize_cases)
  case (raised e e3)
  from raised(1) show ?thesis
  proof (cases rule: get_summary_cached_ui_cases)
    case (hit v stored)
    then show ?thesis by simp
  next
    case (miss b)
    with raised show ?thesis
      by (intro exI [of _ "Inl e"]
          exI [of _ "[SummaryModuleCall (query inp) (max_articles inp) (Inl e)]"]) simp
  qed
next
  case (returned s e3)
  from returned(1) show ?thesis
  proof (cases rule: get_summary_cached_ui_cases)
    case (hit v stored)
    with returned show ?thesis
      by (intro exI [of _ "Inr s"] exI [of _ "[]"]) simp
  next
    case (miss b)
    with returned show ?thesis
      by (intro exI [of _ "Inr s"]
          exI [of _ "[SummaryModuleCall (query inp) (max_articles inp) (Inr s)]"]) simp
  qed
qed


lemma run_flow_shape:
  assumes "run_flow env inp w = (w2, e2)"
  obtains
    (idle) "pressed inp \<noteq> Some RunButton" "w2 = w" "e2 = []"
  | (blank) "pressed inp = Some RunButton" "query inp = [] \<or> strip (query inp) = []"
      "w2 = w" "e2 = [WarningShown EmptyQuery]"
  | (fetch_failed) e where "pressed inp = Some RunButton"
      "\<not> (query inp = [] \<or> strip (query inp) = [])"
      "history w2 = history w" "ui_cache w2 = ui_cache w"
      "e2 = [Spinner ''Fetching articles from NewsAPI...'',
             FetchCall (query inp) (max_articles inp) (Inl e),
             ErrorShown (FetchFailed e), LogException ''NewsAPI fetch failed'',
             InfoShown NoArticles]"
  | (no_articles) "pressed inp = Some RunButton"
      "\<not> (query inp = [] \<or> strip (query inp) = [])"
      "history w2 = history w" "ui_cache w2 = ui_cache w"
      "e2 = [Spinner ''Fetching articles from NewsAPI...'',
             FetchCall (query inp) (max_articles inp) (Inr []), InfoShown NoArticles]"
  | (summarized) articles mid mc r where "pressed inp = Some RunButton"
      "\<not> (query inp = [] \<or> strip (query inp) = [])"
      "articles \<noteq> []" "list_all minor mid"
      "e2 = [Spinner ''Fetching articles from NewsAPI...'',
             FetchCall (query inp) (max_articles inp) (Inr articles),
             Render ''### Fetched articles'', FoundShown (length articles) (query inp)]
            @ mid
            @ [Spinner ''Generating summary with LLM (cached)...'',
               SummaryUICall (query inp) (max_articles inp) None]
            @ mc @ SummaryUIReturn r # summary_events r"
      "history w2 = saved inp r (history w)"
      "(mc = [] \<and> ui_cache w2 = ui_cache w
        \<and> (\<exists>v stored. r = Inr v
              \<and> ui_cache w (query inp, max_articles inp, None) = Some (v, stored)))
       \<or> (mc = [SummaryModuleCall (query inp) (max_articles inp) r]
           \<and> ui_cache w2 =
                (case r of
                   Inl e \<Rightarrow> ui_cache w
                 | Inr v \<Rightarrow> (ui_cache w)((query inp, max_articles inp, None) \<mapsto> (v, now inp))))"
  using assms
proof (cases rule: run_flow_cases)
  case idle
  then show ?thesis by (rule that(1))
next
  case blank
  then show ?thesis by (rule that(2))
next
  case (fetch_failed e b)
  then show ?thesis by (intro that(3) [of e]) simp_all
next
  case (no_articles b)
  then show ?thesis by (intro that(4)) simp_all
next
  case (summarized articles b wt et summary w3 e3 e4)
  from token_estimate_facts [OF summarized(5)]
  have et: "list_all minor et" and wt: "history wt = history w" "ui_cache wt = ui_cache w"
    by simp_all
  from summarize_shape [OF summarized(6)] obtain r mc where
    e3: "e3 = [Spinner ''Generating summary with LLM (cached)...'',
               SummaryUICall (query inp) (max_articles inp) None]
              @ mc @ SummaryUIReturn r
              # (case r of
                   Inl e \<Rightarrow> [ErrorShown (SummarizationError e),
                             LogException ''Summarization error'']
                 | Inr s \<Rightarrow> [])"
    and su: "summary = (case r of Inl e \<Rightarrow> None | Inr s \<Rightarrow> Some s)"
    and h3: "history w3 = history wt"
    and c3: "(mc = [] \<and> ui_cache w3 = ui_cache wt
                \<and> (\<exists>v stored. r = Inr v
                      \<and> ui_cache wt (query inp, max_articles inp, None) = Some (v, stored)))
               \<or> (mc = [SummaryModuleCall (query inp) (max_articles inp) r]
                   \<and> ui_cache w3 =
                        (case r of
                           Inl e \<Rightarrow> ui_cache wt
                         | Inr v \<Rightarrow> (ui_cache wt)((query inp, max_articles inp, None) \<mapsto> (v, now inp))))"
    by blast
  have tail: "(case r of
                 Inl e \<Rightarrow> [ErrorShown (SummarizationError e), LogException ''Summarization error'']
               | Inr s \<Rightarrow> []) @ e4 = summary_events r
             \<and> history w2 = saved inp r (history w3) \<and> ui_cache w2 = ui_cache w3"
    using summarized(7)
  proof (cases rule: show_summary_cases)
    case nothing
    with su show ?thesis
      by (cases r) (auto simp: summary_events_def saved_def)
  next
    case (shown s)
    with su show ?thesis
      by (cases r) (auto simp: summary_events_def saved_def)
  qed
  have mid: "list_all minor (card_rows articles 0 @ et)"
    using et by (simp add: minor_card_rows)
  have e2: "e2 = [Spinner ''Fetching articles from NewsAPI...'',
             FetchCall (query inp) (max_articles inp) (Inr articles),
             Render ''### Fetched articles'', FoundShown (length articles) (query inp)]
            @ (card_rows articles 0 @ et)
            @ [Spinner ''Generating summary with LLM (cached)...'',
               SummaryUICall (query inp) (max_articles inp) None]
            @ mc @ SummaryUIReturn r # summary_events r"
    using summarized(8) e3 tail by simp
  have h2: "history w2 = saved inp r (history w)"
    using tail h3 wt by simp
  have c2: "(mc = [] \<and> ui_cache w2 = ui_cache w
        \<and> (\<exists>v stored. r = Inr v
              \<and> ui_cache w (query inp, max_articles inp, None) = Some (v, stored)))
       \<or> (mc = [SummaryModuleCall (query inp) (max_articles inp) r]
           \<and> ui_cache w2 =
                (case r of
                   Inl e \<Rightarrow> ui_cache w
                 | Inr v \<Rightarrow> (ui_cache w)((query inp, max_articles inp, None) \<mapsto> (v, now inp))))"
    using c3 tail wt by (cases r) auto
  from summarized(1,2,4) mid e2 h2 c2 show ?thesis
    by (rule that(5))
qed

section \<open>Calls in a trace\<close>

lemma quiet_not_call: "quiet e \<Longrightarrow> \<not> fetch_or_summarize e \<and> \<not> fetch_or_wrapper e"
  by (cases e) simp_all

lemma minor_not_call: "minor e \<Longrightarrow> \<not> fetch_or_summarize e \<and> \<not> fetch_or_wrapper e"
  by (cases e) simp_all

lemma filter_quiet:
  "list_all quiet xs \<Longrightarrow> filter fetch_or_summarize xs = [] \<and> filter fetch_or_wrapper xs = []"
  by (simp add: filter_empty_conv list_all_iff quiet_not_call)

lemma filter_minor:
  "list_all minor xs \<Longrightarrow> filter fetch_or_summarize xs = [] \<and> filter fetch_or_wrapper xs = []"
  by (simp add: filter_empty_conv list_all_iff minor_not_call)

lemma filter_summary_events:
  "filter fetch_or_summarize (summary_events r) = [] \<and> filter fetch_or_wrapper (summary_events r) = []"
  by (simp add: summary_events_def split: sum.splits)

section \<open>What the run flow saves\<close>

lemma quiet_no_summary: "quiet e \<Longrightarrow> summary_of e = []"
  by (cases e) simp_all

lemma minor_no_summary: "minor e \<Longrightarrow> summary_of e = []"
  by (cases e) simp_all

lemma summaries_quiet: "list_all quiet xs \<Longrightarrow> concat (map summary_of xs) = []"
  by (induction xs) (simp_all add: quiet_no_summary)

lemma summaries_minor: "list_all minor xs \<Longrightarrow> concat (map summary_of xs) = []"
  by (induction xs) (simp_all add: minor_no_summary)

lemma summaries_summary_events:
  "concat (map summary_of (summary_events r))
     = (case r of Inl e \<Rightarrow> [] | Inr s \<Rightarrow> if s = [] then [] else [s])"
  by (simp add: summary_events_def split: sum.splits)

lemma run_flow_saves:
  assumes "run_flow env inp w = (w2, e2)"
  shows "hist_list (history w2) = rev (successes inp e2) @ hist_list (history w)"
  using assms
proof (cases rule: run_flow_shape)
  case (summarized articles mid mc r)
  from summarized(7) have mc: "concat (map summary_of mc) = []" by auto
  have "concat (map summary_of e2)
          = (case r of Inl e \<Rightarrow> [] | Inr s \<Rightarrow> if s = [] then [] else [s])"
    unfolding summarized(5)
    using summaries_minor [OF summarized(4)] mc summaries_summary_events [of r] by simp
  with summarized(6) show ?thesis
    by (cases r) (simp_all add: successes_def saved_def hist_list_def)
qed (simp_all add: successes_def)

lemma interaction_saves:
  assumes "interaction env inp w = (st, w', ev)"
  shows "hist_list (history w') = rev (successes inp ev) @ hist_list (history w)"
proof -
  obtain w2 e2 where rf: "run_flow env inp w = (w2, e2)"
    by (cases "run_flow env inp w")
  from interaction_split [OF assms] rf obtain pre post where
    ev: "ev = pre @ e2 @ post" and q: "list_all quiet pre" "list_all quiet post"
    and h: "history w' = history w2"
    by auto
  have "successes inp ev = successes inp e2"
    unfolding ev
    by (simp add: successes_def summaries_quiet [OF q(1)] summaries_quiet [OF q(2)])
  with run_flow_saves [OF rf] h show ?thesis by simp
qed

section \<open>What a pass displays of the history\<close>

lemma selectboxes_append [simp]: "selectboxes (xs @ ys) = selectboxes xs @ selectboxes ys"
  by (simp add: selectboxes_def)

lemma load_list_append [simp]: "load_list (xs @ ys) = load_list xs @ load_list ys"
  by (simp add: load_list_def)

lemma minor_no_widget: "minor e \<Longrightarrow> selectbox_of e = [] \<and> load_of e = []"
  by (cases e) simp_all

lemma widgets_minor: "list_all minor xs \<Longrightarrow> selectboxes xs = [] \<and> load_list xs = []"
  by (induction xs) (simp_all add: minor_no_widget selectboxes_def load_list_def)

lemma widgets_summary_events: "selectboxes (summary_events r) = [] \<and> load_list (summary_events r) = []"
  by (simp add: summary_events_def selectboxes_def load_list_def split: sum.splits)

lemma run_flow_widgets:
  assumes "run_flow env inp w = (w2, e2)"
  shows "selectboxes e2 = [] \<and> load_list e2 = []"
  using assms
proof (cases rule: run_flow_shape)
  case (summarized articles mid mc r)
  from summarized(7) have "selectboxes mc = [] \<and> load_list mc = []"
    by (auto simp: selectboxes_def load_list_def)
  with widgets_minor [OF summarized(4)] widgets_summary_events [of r] show ?thesis
    unfolding summarized(5) by (simp add: selectboxes_def load_list_def)
qed (simp_all add: selectboxes_def load_list_def)

lemma sidebar_widgets:
  "sidebar env inp w = (r, w1, e1) \<Longrightarrow> selectboxes e1 = [] \<and> load_list e1 = []"
  by (auto simp: sidebar_def sidebar_controls_def sidebar_end_def selectboxes_def load_list_def
      split: if_splits option.splits prod.splits sum.splits)

lemma top_row_widgets:
  "selectboxes (top_row w) = (if recent (history w) = [] then [] else [recent (history w)])
   \<and> load_list (top_row w) = []"
  by (auto simp: top_row_def selectboxes_def load_list_def recent_def hist_list_def
      split: option.splits)

lemma developer_tools_widgets:
  "developer_tools env inp w = (w3, e4) \<Longrightarrow> selectboxes e4 = [] \<and> load_list e4 = []"
  by (auto simp: developer_tools_def Let_def selectboxes_def load_list_def
      split: if_splits option.splits)

lemma footer_widgets: "selectboxes (footer inp w) = [] \<and> load_list (footer inp w) = []"
  by (simp add: footer_def selectboxes_def load_list_def)

lemma load_buttons_widgets:
  "load_buttons env inp i hs = (r, ev) \<Longrightarrow>
     selectboxes ev = []
     \<and> load_list ev = take (length (load_list ev)) (enumerate i (map h_query hs))
     \<and> (r = None \<longrightarrow> load_list ev = enumerate i (map h_query hs))"
proof (induction hs arbitrary: i r ev)
  case Nil
  then show ?case by (simp add: selectboxes_def load_list_def)
next
  case (Cons h hs)
  show ?case
  proof (cases "pressed inp = Some (LoadButton i)")
    case True
    with Cons.prems show ?thesis
      by (auto simp: selectboxes_def load_list_def split: option.splits)
  next
    case False
    obtain r' ev' where rec: "load_buttons env inp (Suc i) hs = (r', ev')"
      by (cases "load_buttons env inp (Suc i) hs")
    from Cons.prems False rec have ev: "ev = LoadShown i (h_query h) # ev'" and r: "r = r'"
      by simp_all
    from Cons.IH [OF rec] show ?thesis
      unfolding ev r by (simp add: selectboxes_def load_list_def)
  qed
qed

lemma sidebar_history_widgets:
  assumes "sidebar_history env inp w = (r, ev)"
  shows "selectboxes ev = []
     \<and> load_list ev = take (length (load_list ev)) (enumerate 0 (recent (history w)))
     \<and> (r = None \<longrightarrow> load_list ev = enumerate 0 (recent (history w)))"
proof (cases "hist_list (history w) = []")
  case True
  with assms show ?thesis
    by (auto simp: sidebar_history_def hist_list_def recent_def selectboxes_def load_list_def
        split: option.splits)
next
  case False
  then obtain h where h: "history w = Some h" "h \<noteq> []"
    by (auto simp: hist_list_def split: option.splits)
  obtain r' ev' where lb: "load_buttons env inp 0 (take 10 h) = (r', ev')"
    by (cases "load_buttons env inp 0 (take 10 h)")
  from assms h lb have ev: "ev = [Render ''sidebar: ---'', Render ''sidebar: ### Recent queries''] @ ev'"
    and r: "r = r'"
    by (simp_all add: sidebar_history_def)
  have rc: "recent (history w) = map h_query (take 10 h)"
    using h by (simp add: recent_def hist_list_def)
  from load_buttons_widgets [OF lb] show ?thesis
    unfolding ev r rc by (simp add: selectboxes_def load_list_def)
qed

section \<open>Controls the script does not read\<close>

lemma load_buttons_controls:
  "pressed a = pressed b \<Longrightarrow> load_buttons env a i hs = load_buttons env b i hs"
  by (induction hs arbitrary: i) simp_all

lemma script_controls:
  assumes "same_controls a b"
  shows "script env a w = script env b w"
proof -
  from assms have eq: "query a = query b" "max_articles a = max_articles b"
    "pressed a = pressed b" "debug a = debug b" "now a = now b"
    by (simp_all add: same_controls_def)
  have lb: "\<And>i hs. load_buttons env a i hs = load_buttons env b i hs"
    by (rule load_buttons_controls [OF eq(3)])
  show ?thesis
    unfolding script_def sidebar_def run_flow_def fetch_articles_def summarize_def
      show_summary_def sidebar_history_def developer_tools_def footer_def eq lb
    by (rule refl)
qed

lemma interaction_controls:
  assumes "same_controls a b"
  shows "interaction env a w = interaction env b w"
proof -
  have "\<And>q. same_controls (a\<lparr>query := q, pressed := None\<rparr>) (b\<lparr>query := q, pressed := None\<rparr>)"
    using assms by (simp add: same_controls_def)
  then have step: "\<And>q w1. script env (a\<lparr>query := q, pressed := None\<rparr>) w1
                = script env (b\<lparr>query := q, pressed := None\<rparr>) w1"
    by (rule script_controls)
  show ?thesis
    unfolding interaction_def script_controls [OF assms] step
    by (rule refl)
qed

section \<open>Where the summaries of the cache come from\<close>







section \<open>A pass with no button pressed\<close>

lemma load_buttons_idle:
  "pressed inp = None \<Longrightarrow>
     \<exists>ev. load_buttons env inp i hs = (None, ev) \<and> list_all layout ev"
proof (induction hs arbitrary: i)
  case Nil
  show ?case by simp
next
  case (Cons h hs)
  from Cons.IH [OF Cons.prems, of "Suc i"] obtain ev where
    "load_buttons env inp (Suc i) hs = (None, ev)" "list_all layout ev"
    by blast
  with Cons.prems show ?case by simp
qed

lemma sidebar_history_idle:
  assumes "pressed inp = None"
  shows "\<exists>ev. sidebar_history env inp w = (None, ev) \<and> list_all layout ev"
proof (cases "history w")
  case None
  then show ?thesis by (simp add: sidebar_history_def)
next
  case (Some h)
  from load_buttons_idle [OF assms, of env 0 "take 10 h"] obtain ev where
    "load_buttons env inp 0 (take 10 h) = (None, ev)" "list_all layout ev"
    by blast
  with Some show ?thesis by (simp add: sidebar_history_def)
qed

lemma layout_top_row: "list_all layout (top_row w)"
  by (simp add: top_row_def split: option.splits)

lemma layout_footer: "list_all layout (footer inp w)"
  by (simp add: footer_def)

lemma script_idle_layout:
  assumes "pressed inp = None"
  shows "\<exists>ev. script env inp w = (Done, w, ev) \<and> list_all layout ev"
proof -
  have sb: "sidebar env inp w = (None, w, sidebar_controls @ sidebar_end)"
    using assms by (simp add: sidebar_def)
  have l1: "list_all layout (sidebar_controls @ sidebar_end)"
    by (simp add: sidebar_controls_def sidebar_end_def)
  have rf: "run_flow env inp w = (w, [])"
    using assms by (simp add: run_flow_def)
  from sidebar_history_idle [OF assms] obtain e3 where
    sh: "sidebar_history env inp w = (None, e3)" and l3: "list_all layout e3"
    by blast
  have dt: "developer_tools env inp w
      = (w, [Render ''expander Developer tools & debug'', Render ''Inspect or clear caches'',
             ButtonShown ClearStreamlit, Render ''Module-level cached function available''])"
    using assms by (simp add: developer_tools_def)
  have "script env inp w
      = (Done, w,
         (sidebar_controls @ sidebar_end) @ top_row w @ [] @ e3
         @ [Render ''expander Developer tools & debug'', Render ''Inspect or clear caches'',
            ButtonShown ClearStreamlit, Render ''Module-level cached function available'']
         @ footer inp w)"
    using sb rf sh dt by (simp add: script_def)
  moreover have "list_all layout
        ((sidebar_controls @ sidebar_end) @ top_row w @ [] @ e3
         @ [Render ''expander Developer tools & debug'', Render ''Inspect or clear caches'',
            ButtonShown ClearStreamlit, Render ''Module-level cached function available'']
         @ footer inp w)"
    using l1 l3 by (simp add: layout_top_row layout_footer)
  ultimately show ?thesis by blast
qed

lemma interaction_idle_layout:
  assumes "pressed inp = None"
  shows "fst (interaction env inp w) = Done \<and> fst (snd (interaction env inp w)) = w
         \<and> list_all layout (snd (snd (interaction env inp w)))"
proof -
  from script_idle_layout [OF assms] obtain ev where
    "script env inp w = (Done, w, ev)" "list_all layout ev"
    by blast
  then show ?thesis by (simp add: interaction_def)
qed

section \<open>What pressing a button changes\<close>

lemma script_in_interaction:
  "set (snd (snd (script env inp w))) \<subseteq> set (snd (snd (interaction env inp w)))"
proof -
  obtain st w1 e1 where s: "script env inp w = (st, w1, e1)"
    by (cases "script env inp w")
  show ?thesis
  proof (cases st)
    case Done
    with s show ?thesis by (simp add: interaction_def)
  next
    case (Crashed e)
    with s show ?thesis by (simp add: interaction_def)
  next
    case (Rerun q)
    obtain r w2 e2 where "script env (inp\<lparr>query := q, pressed := None\<rparr>) w1 = (r, w2, e2)"
      by (cases "script env (inp\<lparr>query := q, pressed := None\<rparr>) w1")
    with s Rerun show ?thesis by (simp add: interaction_def)
  qed
qed

lemma loud_responds:
  assumes "x \<in> set (snd (snd (script env (inp\<lparr>pressed := Some b\<rparr>) w)))" and "\<not> layout x"
  shows "responds env inp w b"
proof -
  from assms(1) script_in_interaction
  have x: "x \<in> set (snd (snd (interaction env (inp\<lparr>pressed := Some b\<rparr>) w)))"
    by blast
  have "pressed (inp\<lparr>pressed := None\<rparr>) = None" by simp
  from interaction_idle_layout [OF this]
  have "list_all layout (snd (snd (interaction env (inp\<lparr>pressed := None\<rparr>) w)))"
    by blast
  with assms(2) have "x \<notin> set (snd (snd (interaction env (inp\<lparr>pressed := None\<rparr>) w)))"
    by (auto simp: list_all_iff)
  with x show ?thesis
    unfolding responds_def by metis
qed

lemma run_flow_loud:
  assumes "pressed inp = Some RunButton" and "run_flow env inp w = (w2, e2)"
  shows "\<exists>x \<in> set e2. \<not> layout x"
  using assms(2)
proof (cases rule: run_flow_shape)
  case idle
  with assms(1) show ?thesis by simp
next
  case blank
  then show ?thesis by simp
next
  case (fetch_failed e)
  then show ?thesis by simp
next
  case no_articles
  then show ?thesis by simp
next
  case (summarized articles mid mc r)
  have "Spinner ''Fetching articles from NewsAPI...'' \<in> set e2"
    unfolding summarized(5) by simp
  moreover have "\<not> layout (Spinner ''Fetching articles from NewsAPI...'')" by simp
  ultimately show ?thesis by blast
qed

lemma responds_run: "responds env inp w RunButton"
proof -
  let ?inp = "inp\<lparr>pressed := Some RunButton\<rparr>"
  have p: "pressed ?inp = Some RunButton" by simp
  obtain w2 e2 where rf: "run_flow env ?inp w = (w2, e2)"
    by (cases "run_flow env ?inp w")
  from run_flow_loud [OF p rf] obtain x where x: "x \<in> set e2" "\<not> layout x"
    by blast
  from script_run [OF p rf] obtain pre post where
    "script env ?inp w = (Done, w2, pre @ e2 @ post)"
    by blast
  with x(1) have "x \<in> set (snd (snd (script env ?inp w)))" by simp
  then show ?thesis using x(2) by (rule loud_responds)
qed

lemma responds_clear_all: "responds env inp w ClearAll"
proof -
  let ?inp = "inp\<lparr>pressed := Some ClearAll\<rparr>"
  obtain r w1 e1 where sb: "sidebar env ?inp w = (r, w1, e1)"
    by (cases "sidebar env ?inp w")
  then have loud: "CacheCleared \<in> set e1 \<or> (\<exists>e. Uncaught e \<in> set e1)"
    by (auto simp: sidebar_def split: option.splits prod.splits sum.splits)
  have sub: "set e1 \<subseteq> set (snd (snd (script env ?inp w)))"
    using sb by (auto simp: script_def split: option.splits prod.splits)
  from loud obtain x where "x \<in> set e1" "\<not> layout x"
    by auto
  with sub have "x \<in> set (snd (snd (script env ?inp w)))" "\<not> layout x"
    by auto
  then show ?thesis by (rule loud_responds)
qed

lemma responds_clear_streamlit: "responds env inp w ClearStreamlit"
proof -
  let ?inp = "inp\<lparr>pressed := Some ClearStreamlit\<rparr>"
  have sb: "sidebar env ?inp w = (None, w, sidebar_controls @ sidebar_end)"
    by (simp add: sidebar_def)
  have rf: "run_flow env ?inp w = (w, [])"
    by (simp add: run_flow_def)
  obtain r3 e3 where sh: "sidebar_history env ?inp w = (r3, e3)"
    by (cases "sidebar_history env ?inp w")
  have r3: "r3 = None"
    using sidebar_history_some [of env ?inp w] sh by (cases r3) auto
  obtain w3 e4 where dt: "developer_tools env ?inp w = (w3, e4)"
    by (cases "developer_tools env ?inp w")
  then have loud: "CacheCleared \<in> set e4 \<or> ErrorShown ClearFailed \<in> set e4"
    by (auto simp: developer_tools_def Let_def split: option.splits)
  have "snd (snd (script env ?inp w))
      = (sidebar_controls @ sidebar_end) @ top_row w @ [] @ e3 @ e4 @ footer ?inp w3"
    using sb rf sh r3 dt by (simp add: script_def)
  then have sub: "set e4 \<subseteq> set (snd (snd (script env ?inp w)))"
    by auto
  from loud obtain x where "x \<in> set e4" "\<not> layout x"
    by auto
  with sub have "x \<in> set (snd (snd (script env ?inp w)))" "\<not> layout x"
    by auto
  then show ?thesis by (rule loud_responds)
qed

lemma load_buttons_pressed:
  "pressed inp = Some (LoadButton j) \<Longrightarrow> i \<le> j \<Longrightarrow> j < i + length hs \<Longrightarrow>
     RerunRequested \<in> set (snd (load_buttons env inp i hs))
     \<or> (\<exists>e. Uncaught e \<in> set (snd (load_buttons env inp i hs)))"
proof (induction hs arbitrary: i)
  case Nil
  then show ?case by simp
next
  case (Cons h hs)
  show ?case
  proof (cases "i = j")
    case True
    with Cons.prems(1) show ?thesis
      by (cases "session_assign env") simp_all
  next
    case False
    with Cons.prems have "Suc i \<le> j" "j < Suc i + length hs"
      by simp_all
    from Cons.IH [OF Cons.prems(1) this]
    have "RerunRequested \<in> set (snd (load_buttons env inp (Suc i) hs))
       \<or> (\<exists>e. Uncaught e \<in> set (snd (load_buttons env inp (Suc i) hs)))" .
    moreover obtain r ev where "load_buttons env inp (Suc i) hs = (r, ev)"
      by (cases "load_buttons env inp (Suc i) hs")
    ultimately show ?thesis
      using Cons.prems(1) False by auto
  qed
qed

lemma responds_load:
  assumes "i < length (recent (history w))"
  shows "responds env inp w (LoadButton i)"
proof -
  let ?inp = "inp\<lparr>pressed := Some (LoadButton i)\<rparr>"
  have p: "pressed ?inp = Some (LoadButton i)" by simp
  from assms obtain h where h0: "history w = Some h" "i < length (take 10 h)"
    by (auto simp: recent_def hist_list_def split: option.splits)
  from h0(2) have "h \<noteq> []" by auto
  with h0 have h: "history w = Some h" "h \<noteq> []" "i < length (take 10 h)"
    by simp_all
  have sb: "sidebar env ?inp w = (None, w, sidebar_controls @ sidebar_end)"
    by (simp add: sidebar_def)
  have rf: "run_flow env ?inp w = (w, [])"
    by (simp add: run_flow_def)
  obtain r ev where lb: "load_buttons env ?inp 0 (take 10 h) = (r, ev)"
    by (cases "load_buttons env ?inp 0 (take 10 h)")
  from load_buttons_pressed [OF p, of 0 "take 10 h" env] h(3) lb
  have loud: "RerunRequested \<in> set ev \<or> (\<exists>e. Uncaught e \<in> set ev)"
    by simp
  have sh: "sidebar_history env ?inp w
      = (r, [Render ''sidebar: ---'', Render ''sidebar: ### Recent queries''] @ ev)"
    using h lb by (simp add: sidebar_history_def)
  have sub: "set ev \<subseteq> set (snd (snd (script env ?inp w)))"
    using sb rf sh by (auto simp: script_def split: option.splits prod.splits)
  from loud obtain x where "x \<in> set ev" "\<not> layout x"
    by auto
  with sub have "x \<in> set (snd (snd (script env ?inp w)))" "\<not> layout x"
    by auto
  then show ?thesis by (rule loud_responds)
qed

lemma load_buttons_out_of_range:
  "pressed a = Some (LoadButton j) \<Longrightarrow> pressed b = None \<Longrightarrow> j < i \<or> i + length hs \<le> j \<Longrightarrow>
     load_buttons env a i hs = load_buttons env b i hs"
proof (induction hs arbitrary: i)
  case Nil
  show ?case by simp
next
  case (Cons h hs)
  from Cons.prems(3) have "j < Suc i \<or> Suc i + length hs \<le> j" and "i \<noteq> j"
    by auto
  with Cons.IH [OF Cons.prems(1,2), of "Suc i"] Cons.prems(1,2) show ?case
    by simp
qed

lemma not_responds_load:
  assumes "length (recent (history w)) \<le> i"
  shows "\<not> responds env inp w (LoadButton i)"
proof -
  let ?a = "inp\<lparr>pressed := Some (LoadButton i)\<rparr>" and ?b = "inp\<lparr>pressed := None\<rparr>"
  have pa: "pressed ?a = Some (LoadButton i)" and pb: "pressed ?b = None"
    by simp_all
  have sb: "sidebar env ?a w = (None, w, sidebar_controls @ sidebar_end)"
    "sidebar env ?b w = (None, w, sidebar_controls @ sidebar_end)"
    by (simp_all add: sidebar_def)
  have rf: "run_flow env ?a w = (w, [])" "run_flow env ?b w = (w, [])"
    by (simp_all add: run_flow_def)
  have sh: "sidebar_history env ?a w = sidebar_history env ?b w"
  proof (cases "history w")
    case None
    then show ?thesis by (simp add: sidebar_history_def)
  next
    case (Some h)
    with assms have "0 + length (take 10 h) \<le> i"
      by (simp add: recent_def hist_list_def)
    then have "load_buttons env ?a 0 (take 10 h) = load_buttons env ?b 0 (take 10 h)"
      using load_buttons_out_of_range [OF pa pb] by blast
    with Some show ?thesis by (simp add: sidebar_history_def)
  qed
  from sidebar_history_idle [OF pb, of env w] obtain e3 where
    shb: "sidebar_history env ?b w = (None, e3)"
    by blast
  with sh have sha: "sidebar_history env ?a w = (None, e3)"
    by simp
  have dt: "developer_tools env ?a w
      = (w, [Render ''expander Developer tools & debug'', Render ''Inspect or clear caches'',
             ButtonShown ClearStreamlit, Render ''Module-level cached function available''])"
    "developer_tools env ?b w
      = (w, [Render ''expander Developer tools & debug'', Render ''Inspect or clear caches'',
             ButtonShown ClearStreamlit, Render ''Module-level cached function available''])"
    by (simp_all add: developer_tools_def)
  have ft: "footer ?a w = footer ?b w"
    by (simp add: footer_def)
  have "script env ?a w
      = (Done, w,
         (sidebar_controls @ sidebar_end) @ top_row w @ [] @ e3
         @ [Render ''expander Developer tools & debug'', Render ''Inspect or clear caches'',
            ButtonShown ClearStreamlit, Render ''Module-level cached function available'']
         @ footer ?b w)"
    using sb(1) rf(1) sha dt(1) ft by (simp add: script_def)
  moreover have "script env ?b w
      = (Done, w,
         (sidebar_controls @ sidebar_end) @ top_row w @ [] @ e3
         @ [Render ''expander Developer tools & debug'', Render ''Inspect or clear caches'',
            ButtonShown ClearStreamlit, Render ''Module-level cached function available'']
         @ footer ?b w)"
    using sb(2) rf(2) shb dt(2) by (simp add: script_def)
  ultimately have "interaction env ?a w = interaction env ?b w"
    by (simp add: interaction_def)
  then show ?thesis by (simp add: responds_def)
qed

section \<open>The concrete session, evaluated\<close>

lemma card_rows_single: "card_rows [a] 0 = [Columns 2, CardShown a]"
  by (simp add: card_rows.simps card_cols_def)

lemma demo_run:
  "interaction demo_env demo_inputs demo_world =
     (Done,
      \<lparr>history = Some [\<lparr>h_query = lit ''ACME'', h_summary = lit ''ok''\<rparr>],
       ui_cache = [(lit ''ACME'', 20, None) \<mapsto> (lit ''ok'', 100)],
       backend = 1\<rparr>,
      sidebar_controls @ sidebar_end @ top_row demo_world
      @ [Spinner ''Fetching articles from NewsAPI...'',
         FetchCall (lit ''ACME'') 20 (Inr [demo_article]),
         Render ''### Fetched articles'', FoundShown 1 (lit ''ACME''),
         Columns 2, CardShown demo_article,
         EstimateCall (concat_text [demo_article]) (Inr 12),
         InfoShown (TokenEstimate 12),
         Spinner ''Generating summary with LLM (cached)...'',
         SummaryUICall (lit ''ACME'') 20 None,
         SummaryModuleCall (lit ''ACME'') 20 (Inr (lit ''ok'')),
         SummaryUIReturn (Inr (lit ''ok'')),
         Render ''---'', Render ''## Summary'',
         SummaryShown (lit ''ok''), DownloadShown (lit ''ok''),
         Render ''sidebar: ---'', Render ''sidebar: ### Recent queries'',
         LoadShown 0 (lit ''ACME''),
         Render ''expander Developer tools & debug'',
         Render ''Inspect or clear caches'', ButtonShown ClearStreamlit,
         Render ''Module-level cached function available'', Render ''---'',
         Render ''Notes''])"
  by (simp add: interaction_def script_def sidebar_def top_row_def run_flow_def
      fetch_articles_def token_estimate_def summarize_def show_summary_def
      get_summary_cached_ui_def get_summary_ui_body_def cache_lookup_def sidebar_history_def
      developer_tools_def footer_def strip_def isspace_def lit_def
      demo_env_def demo_inputs_def demo_world_def card_rows_single)

lemmas pass_defs = interaction_def script_def sidebar_def top_row_def run_flow_def
  fetch_articles_def token_estimate_def summarize_def show_summary_def
  get_summary_cached_ui_def get_summary_ui_body_def cache_lookup_def sidebar_history_def
  developer_tools_def footer_def strip_def isspace_def lit_def

lemma fetch_down_run:
  "interaction fetch_down_env demo_inputs demo_world =
     (Done, demo_world,
      sidebar_controls @ sidebar_end @ top_row demo_world
      @ [Spinner ''Fetching articles from NewsAPI...'',
         FetchCall (lit ''ACME'') 20 (Inl (lit ''timeout'')),
         ErrorShown (FetchFailed (lit ''timeout'')),
         LogException ''NewsAPI fetch failed'',
         InfoShown NoArticles,
         Render ''expander Developer tools & debug'',
         Render ''Inspect or clear caches'', ButtonShown ClearStreamlit,
         Render ''Module-level cached function available'', Render ''---'',
         Render ''Notes''])"
  by (simp add: pass_defs fetch_down_env_def demo_env_def demo_inputs_def demo_world_def)

lemma llm_down_run:
  "interaction llm_down_env demo_inputs demo_world =
     (Done, demo_world,
      sidebar_controls @ sidebar_end @ top_row demo_world
      @ [Spinner ''Fetching articles from NewsAPI...'',
         FetchCall (lit ''ACME'') 20 (Inr [demo_article]),
         Render ''### Fetched articles'', FoundShown 1 (lit ''ACME''),
         Columns 2, CardShown demo_article,
         EstimateCall (concat_text [demo_article]) (Inr 12),
         InfoShown (TokenEstimate 12),
         Spinner ''Generating summary with LLM (cached)...'',
         SummaryUICall (lit ''ACME'') 20 None,
         SummaryModuleCall (lit ''ACME'') 20 (Inl (lit ''quota'')),
         SummaryUIReturn (Inl (lit ''quota'')),
         ErrorShown (SummarizationError (lit ''quota'')),
         LogException ''Summarization error'',
         Render ''expander Developer tools & debug'',
         Render ''Inspect or clear caches'', ButtonShown ClearStreamlit,
         Render ''Module-level cached function available'', Render ''---'',
         Render ''Notes''])"
  by (simp add: pass_defs llm_down_env_def demo_env_def demo_inputs_def demo_world_def
      card_rows_single)

lemma long_world_recent:
  "recent (history long_world) = [[65], [66], [67], [68], [69], [70], [71], [72], [73], [74]]"
  by (simp add: long_world_def recent_def hist_list_def)

lemma long_world_pass:
  "fst (script demo_env idle_inputs long_world) = Done"
  "history (fst (snd (script demo_env idle_inputs long_world))) = history long_world"
  by (simp_all add: script_def sidebar_def run_flow_def sidebar_history_def developer_tools_def
      idle_inputs_def demo_inputs_def demo_env_def long_world_def split: prod.splits)

lemmas demo_defs = demo_env_def demo_inputs_def later_inputs_def seeded_world_def
  sidebar_controls_def sidebar_end_def

lemma seeded_responds:
  "responds demo_env later_inputs seeded_world RunButton"
  "responds demo_env later_inputs seeded_world ClearAll"
  by (simp_all add: responds_def pass_defs demo_defs card_rows_single)


lemma demo_run_seeds: "fst (snd (interaction demo_env demo_inputs demo_world)) = seeded_world"
  by (simp add: demo_run seeded_world_def)

lemma xyz_run:
  "history (fst (snd (interaction demo_env xyz_inputs seeded_world)))
     = Some [\<lparr>h_query = lit ''XYZ'', h_summary = lit ''ok''\<rparr>,
             \<lparr>h_query = lit ''ACME'', h_summary = lit ''ok''\<rparr>]"
  "concat (map summary_of (snd (snd (interaction demo_env xyz_inputs seeded_world)))) = [lit ''ok'']"
  by (simp_all add: pass_defs ui_cache_ttl_def demo_env_def demo_inputs_def later_inputs_def
      xyz_inputs_def seeded_world_def card_rows_single sidebar_controls_def sidebar_end_def)

lemma demo_run_summaries:
  "concat (map summary_of (snd (snd (interaction demo_env demo_inputs demo_world)))) = [lit ''ok'']"
  unfolding demo_run
  by (simp add: sidebar_controls_def sidebar_end_def top_row_def demo_world_def)

lemma two_runs:
  "snd (session demo_env [demo_inputs, xyz_inputs] demo_world)
     = [\<lparr>h_query = lit ''ACME'', h_summary = lit ''ok''\<rparr>,
        \<lparr>h_query = lit ''XYZ'', h_summary = lit ''ok''\<rparr>]"
proof -
  obtain st1 w1 ev1 where i1: "interaction demo_env demo_inputs demo_world = (st1, w1, ev1)"
    by (cases "interaction demo_env demo_inputs demo_world")
  with demo_run_seeds have w1: "w1 = seeded_world" by simp
  obtain st2 w2 ev2 where i2: "interaction demo_env xyz_inputs seeded_world = (st2, w2, ev2)"
    by (cases "interaction demo_env xyz_inputs seeded_world")
  from i1 demo_run_summaries have s1: "concat (map summary_of ev1) = [lit ''ok'']" by simp
  from i2 xyz_run(2) have s2: "concat (map summary_of ev2) = [lit ''ok'']" by simp
  have q: "query demo_inputs = lit ''ACME''" "query xyz_inputs = lit ''XYZ''"
    by (simp_all add: demo_inputs_def xyz_inputs_def later_inputs_def)
  show ?thesis
    using i1 i2 w1 by (simp add: successes_def s1 s2 q)
qed

lemma refused_load:
  "fst (interaction demo_env (idle_inputs\<lparr>pressed := Some (LoadButton 0)\<rparr>) seeded_world)
     = Crashed (lit ''StreamlitAPIException'')"
  "Uncaught (lit ''StreamlitAPIException'')
     \<in> set (snd (snd (interaction demo_env (idle_inputs\<lparr>pressed := Some (LoadButton 0)\<rparr>) seeded_world)))"
  by (simp_all add: pass_defs demo_env_def idle_inputs_def demo_inputs_def seeded_world_def)

section \<open>The claims\<close>

text \<open>
  C1. In a run in which the Run button was pressed with a non-empty query, the fetch
  returned a non-empty list of articles and the summarization returned a non-empty
  summary, exactly one record is put at the front of the session history: the query and
  that summary. The history before the run is its tail.
\<close>

theorem successful_run_prepends:
  assumes "interaction env inp w = (st, w', ev)"
    and "pressed inp = Some RunButton" and "query inp \<noteq> []"
    and "FetchCall q n (Inr arts) \<in> set ev" and "arts \<noteq> []"
    and "SummaryUIReturn (Inr s) \<in> set ev" and "s \<noteq> []"
  shows "history w' = Some (\<lparr>h_query = query inp, h_summary = s\<rparr> # hist_list (history w))"
proof -
  obtain w2 e2 where rf: "run_flow env inp w = (w2, e2)"
    by (cases "run_flow env inp w")
  from interaction_split [OF assms(1)] rf have h: "history w' = history w2"
    by auto
  from interaction_loud [OF assms(1) assms(6)] rf have ret: "SummaryUIReturn (Inr s) \<in> set e2"
    by simp
  from rf have "history w2 = Some (\<lparr>h_query = query inp, h_summary = s\<rparr> # hist_list (history w))"
  proof (cases rule: run_flow_shape)
    case (summarized articles mid mc r)
    from ret summarized(4,5,7) have "r = Inr s"
      by (auto simp: summary_events_def list_all_iff split: sum.splits if_splits)
    with summarized(6) assms(7) show ?thesis
      by (simp add: saved_def)
  qed (use ret in auto)
  with h show ?thesis by simp
qed

text \<open>The concrete session is such a run.\<close>

theorem successful_run_prepends_witness:
  "pressed demo_inputs = Some RunButton \<and> query demo_inputs \<noteq> []
   \<and> FetchCall (lit ''ACME'') 20 (Inr [demo_article])
       \<in> set (snd (snd (interaction demo_env demo_inputs demo_world)))
   \<and> SummaryUIReturn (Inr (lit ''ok''))
       \<in> set (snd (snd (interaction demo_env demo_inputs demo_world)))
   \<and> history (fst (snd (interaction demo_env demo_inputs demo_world)))
       = Some [\<lparr>h_query = lit ''ACME'', h_summary = lit ''ok''\<rparr>]"
proof -
  have p: "pressed demo_inputs = Some RunButton" and q: "query demo_inputs \<noteq> []"
    by (simp_all add: demo_inputs_def lit_def)
  have f: "FetchCall (lit ''ACME'') 20 (Inr [demo_article])
       \<in> set (snd (snd (interaction demo_env demo_inputs demo_world)))"
    and r: "SummaryUIReturn (Inr (lit ''ok''))
       \<in> set (snd (snd (interaction demo_env demo_inputs demo_world)))"
    by (simp_all add: demo_run)
  have i: "interaction demo_env demo_inputs demo_world
       = (fst (interaction demo_env demo_inputs demo_world),
          fst (snd (interaction demo_env demo_inputs demo_world)),
          snd (snd (interaction demo_env demo_inputs demo_world)))"
    by simp
  have "history (fst (snd (interaction demo_env demo_inputs demo_world)))
       = Some (\<lparr>h_query = query demo_inputs, h_summary = lit ''ok''\<rparr> # hist_list (history demo_world))"
    by (rule successful_run_prepends [OF i p q f _ r]) (simp_all add: lit_def)
  then have "history (fst (snd (interaction demo_env demo_inputs demo_world)))
       = Some [\<lparr>h_query = lit ''ACME'', h_summary = lit ''ok''\<rparr>]"
    by (simp add: demo_inputs_def demo_world_def hist_list_def)
  with p q f r show ?thesis by simp
qed

text \<open>
  C2. The session history is most-recent-first. After any sequence of interactions,
  from any history, the history is the successful runs of the sequence, the latest first,
  in front of the history the sequence started from: every change of the history puts
  the new record at the front.
\<close>

theorem history_most_recent_first:
  "hist_list (history (fst (session env inps w)))
     = rev (snd (session env inps w)) @ hist_list (history w)"
proof (induction inps arbitrary: w)
  case Nil
  show ?case by simp
next
  case (Cons inp rest)
  obtain st w1 ev where i: "interaction env inp w = (st, w1, ev)"
    by (cases "interaction env inp w")
  obtain w2 chronicle where s: "session env rest w1 = (w2, chronicle)"
    by (cases "session env rest w1")
  from Cons.IH [of w1] s have "hist_list (history w2) = rev chronicle @ hist_list (history w1)"
    by simp
  with interaction_saves [OF i] i s show ?case by simp
qed

text \<open>Two successful runs in a row: the later one is first in the history.\<close>

theorem history_most_recent_first_witness:
  "snd (session demo_env [demo_inputs, xyz_inputs] demo_world)
     = [\<lparr>h_query = lit ''ACME'', h_summary = lit ''ok''\<rparr>,
        \<lparr>h_query = lit ''XYZ'', h_summary = lit ''ok''\<rparr>]
   \<and> hist_list (history (fst (session demo_env [demo_inputs, xyz_inputs] demo_world)))
     = [\<lparr>h_query = lit ''XYZ'', h_summary = lit ''ok''\<rparr>,
        \<lparr>h_query = lit ''ACME'', h_summary = lit ''ok''\<rparr>]"
  using history_most_recent_first [of demo_env "[demo_inputs, xyz_inputs]" demo_world] two_runs
  by (simp add: demo_world_def hist_list_def)

text \<open>
  C3. Whatever the length of the session history, a pass displays at most ten of its
  records, the first ten: the \<open>Recent queries\<close> selector, where it is shown, offers the
  queries of the first ten records of the history the pass started with; the \<open>Load:\<close>
  buttons, rendered after the run flow, are those of the first ten records of the
  history the pass leaves, in order, all of them in a pass that reaches its end (a pass
  that a pressed \<open>Load:\<close> button ends early has rendered them up to that button).
\<close>

theorem displayed_history_is_first_ten:
  assumes "script env inp w = (st, w', ev)"
  shows "length (recent (history w)) \<le> 10 \<and> length (recent (history w')) \<le> 10
         \<and> (\<forall>options \<in> set (selectboxes ev). options = recent (history w))
         \<and> load_list ev = take (length (load_list ev)) (enumerate 0 (recent (history w')))
         \<and> (st = Done \<longrightarrow>
               selectboxes ev = (if recent (history w) = [] then [] else [recent (history w)])
               \<and> load_list ev = enumerate 0 (recent (history w')))"
proof -
  have len: "length (recent (history w)) \<le> 10 \<and> length (recent (history w')) \<le> 10"
    by (simp add: recent_def)
  obtain r w1 e1 where sb: "sidebar env inp w = (r, w1, e1)"
    by (cases "sidebar env inp w")
  note s1 = sidebar_widgets [OF sb] and q1 = quiet_sidebar [OF sb]
  show ?thesis
  proof (cases r)
    case (Some e)
    with assms sb have "ev = e1" "st = Crashed e"
      by (auto simp: script_def)
    with s1 len show ?thesis by simp
  next
    case None
    obtain w2 e2 where rf: "run_flow env inp w1 = (w2, e2)"
      by (cases "run_flow env inp w1")
    obtain r3 e3 where sh: "sidebar_history env inp w2 = (r3, e3)"
      by (cases "sidebar_history env inp w2")
    note s2 = run_flow_widgets [OF rf] and s3 = sidebar_history_widgets [OF sh]
    have t: "selectboxes (top_row w1) = (if recent (history w) = [] then [] else [recent (history w)])"
      "load_list (top_row w1) = []"
      using top_row_widgets [of w1] q1 by simp_all
    show ?thesis
    proof (cases r3)
      case (Some x)
      with assms sb None rf sh have ev: "ev = e1 @ top_row w1 @ e2 @ e3" and w': "w' = w2" and st: "st = x"
        by (auto simp: script_def)
      from sidebar_history_some [of env inp w2 x] sh Some st have nd: "st \<noteq> Done"
        by simp
      from s1 s2 s3 t len nd show ?thesis
        unfolding ev w' by simp
    next
      case r3: None
      obtain w3 e4 where dt: "developer_tools env inp w2 = (w3, e4)"
        by (cases "developer_tools env inp w2")
      from assms sb None rf sh r3 dt have ev: "ev = e1 @ top_row w1 @ e2 @ e3 @ e4 @ footer inp w3"
        and w': "w' = w3"
        by (auto simp: script_def)
      from quiet_developer_tools [OF dt] have h3: "history w3 = history w2" by simp
      from s1 s2 s3 t len r3 developer_tools_widgets [OF dt] footer_widgets [of inp w3] h3
      show ?thesis
        unfolding ev w' by simp
    qed
  qed
qed

text \<open>A history of twelve records: ten are displayed.\<close>

theorem displayed_history_is_first_ten_witness:
  "length (hist_list (history long_world)) = 12
   \<and> selectboxes (snd (snd (script demo_env idle_inputs long_world)))
       = [[[65], [66], [67], [68], [69], [70], [71], [72], [73], [74]]]
   \<and> load_list (snd (snd (script demo_env idle_inputs long_world)))
       = [(0, [65]), (1, [66]), (2, [67]), (3, [68]), (4, [69]),
          (5, [70]), (6, [71]), (7, [72]), (8, [73]), (9, [74])]"
proof -
  have i: "script demo_env idle_inputs long_world
       = (fst (script demo_env idle_inputs long_world),
          fst (snd (script demo_env idle_inputs long_world)),
          snd (snd (script demo_env idle_inputs long_world)))"
    by simp
  have e: "enumerate 0 [[65], [66], [67], [68], [69], [70], [71], [72], [73], [74::nat]]
       = [(0, [65]), (1, [66]), (2, [67]), (3, [68]), (4, [69]),
          (5, [70]), (6, [71]), (7, [72]), (8, [73]), (9, [74])]"
    by (simp add: enumerate_eq_zip upt_rec)
  have l: "length (hist_list (history long_world)) = 12"
    by (simp add: long_world_def hist_list_def)
  note d = displayed_history_is_first_ten [OF i, THEN conjunct2, THEN conjunct2,
      THEN conjunct2, THEN conjunct2, THEN mp, OF long_world_pass(1)]
  from d have "selectboxes (snd (snd (script demo_env idle_inputs long_world)))
       = [[[65], [66], [67], [68], [69], [70], [71], [72], [73], [74]]]"
    by (simp add: long_world_recent)
  moreover from d have "load_list (snd (snd (script demo_env idle_inputs long_world)))
       = [(0, [65]), (1, [66]), (2, [67]), (3, [68]), (4, [69]),
          (5, [70]), (6, [71]), (7, [72]), (8, [73]), (9, [74])]"
    by (simp add: long_world_pass(2) long_world_recent e)
  ultimately show ?thesis using l by simp
qed

text \<open>
  C4, as stated: exactly one button has a handler. It does not hold: in the session
  the concrete run leaves, pressing Run and pressing the button that clears the caches
  each make the interaction do something it does not do with no button pressed.
\<close>

theorem more_than_one_button_handler:
  "responds demo_env later_inputs seeded_world RunButton
   \<and> responds demo_env later_inputs seeded_world ClearAll
   \<and> RunButton \<noteq> ClearAll"
  using seeded_responds(1,2) by simp

text \<open>
  C4, amended. Buttons of four kinds have a handler: Run, \<open>clear_all\<close>,
  \<open>clear_streamlit\<close> and the \<open>Load:\<close> buttons of the history. Whatever the collaborators
  do (also when Streamlit refuses the assignment of a \<open>Load:\<close> button, or clearing a
  cache raises), from any session and with any controls, pressing Run, \<open>clear_all\<close>,
  \<open>clear_streamlit\<close> or the \<open>Load:\<close> button of one of the first ten records makes the
  interaction do something it does not do with no button pressed; a \<open>Load:\<close> button
  past the displayed records does not exist and changes nothing. With no button
  pressed an interaction only renders the page: it ends normally, leaves everything
  that lives across passes as it was, and every event of it is a page element. An
  interaction in which Run was not pressed neither fetches nor summarizes nor changes
  the history.
\<close>

theorem four_button_handlers:
  "responds env inp w RunButton
   \<and> responds env inp w ClearAll
   \<and> responds env inp w ClearStreamlit
   \<and> (i < length (recent (history w)) \<longrightarrow> responds env inp w (LoadButton i))
   \<and> (length (recent (history w)) \<le> i \<longrightarrow> \<not> responds env inp w (LoadButton i))
   \<and> (pressed inp = None \<longrightarrow>
         fst (interaction env inp w) = Done \<and> fst (snd (interaction env inp w)) = w
         \<and> list_all layout (snd (snd (interaction env inp w))))
   \<and> (pressed inp \<noteq> Some RunButton \<longrightarrow>
         filter fetch_or_summarize (snd (snd (interaction env inp w))) = []
         \<and> history (fst (snd (interaction env inp w))) = history w)"
proof -
  have i: "interaction env inp w
       = (fst (interaction env inp w), fst (snd (interaction env inp w)),
          snd (snd (interaction env inp w)))"
    by simp
  have idle: "filter fetch_or_summarize (snd (snd (interaction env inp w))) = []
         \<and> history (fst (snd (interaction env inp w))) = history w"
    if "pressed inp \<noteq> Some RunButton"
    using interaction_idle [OF that i] filter_quiet by blast
  have unpressed: "pressed inp = None \<longrightarrow>
         fst (interaction env inp w) = Done \<and> fst (snd (interaction env inp w)) = w
         \<and> list_all layout (snd (snd (interaction env inp w)))"
    using interaction_idle_layout [of inp env w] by (rule impI)
  have shown: "i < length (recent (history w)) \<longrightarrow> responds env inp w (LoadButton i)"
    using responds_load [of i w env inp] by (rule impI)
  have hidden: "length (recent (history w)) \<le> i \<longrightarrow> \<not> responds env inp w (LoadButton i)"
    using not_responds_load [of w i env inp] by (rule impI)
  have norun: "pressed inp \<noteq> Some RunButton \<longrightarrow>
         filter fetch_or_summarize (snd (snd (interaction env inp w))) = []
         \<and> history (fst (snd (interaction env inp w))) = history w"
    using idle by (rule impI)
  from responds_run [of env inp w] responds_clear_all [of env inp w]
    responds_clear_streamlit [of env inp w] shown hidden unpressed norun
  show ?thesis by (intro conjI)
qed

text \<open>
  The session the concrete run leaves, with one record, and a Streamlit that refuses
  the assignment: the first \<open>Load:\<close> button ends the pass with the exception, a second
  one does not exist.
\<close>

theorem four_button_handlers_witness:
  "session_assign demo_env = Some (lit ''StreamlitAPIException'')
   \<and> length (recent (history seeded_world)) = 1
   \<and> responds demo_env idle_inputs seeded_world RunButton
   \<and> responds demo_env idle_inputs seeded_world ClearAll
   \<and> responds demo_env idle_inputs seeded_world ClearStreamlit
   \<and> responds demo_env idle_inputs seeded_world (LoadButton 0)
   \<and> fst (interaction demo_env (idle_inputs\<lparr>pressed := Some (LoadButton 0)\<rparr>) seeded_world)
       = Crashed (lit ''StreamlitAPIException'')
   \<and> \<not> responds demo_env idle_inputs seeded_world (LoadButton 1)
   \<and> pressed idle_inputs = None
   \<and> fst (interaction demo_env idle_inputs seeded_world) = Done
   \<and> fst (snd (interaction demo_env idle_inputs seeded_world)) = seeded_world
   \<and> list_all layout (snd (snd (interaction demo_env idle_inputs seeded_world)))
   \<and> filter fetch_or_summarize (snd (snd (interaction demo_env idle_inputs seeded_world))) = []"
proof -
  have e: "session_assign demo_env = Some (lit ''StreamlitAPIException'')"
    by (simp add: demo_env_def)
  have l: "length (recent (history seeded_world)) = 1"
    by (simp add: recent_def hist_list_def seeded_world_def)
  have p: "pressed idle_inputs = None"
    by (simp add: idle_inputs_def)
  then have n: "pressed idle_inputs \<noteq> Some RunButton"
    by simp
  note t0 = four_button_handlers [of demo_env idle_inputs seeded_world 0]
  note t1 = four_button_handlers [of demo_env idle_inputs seeded_world 1]
  from t0 have r: "responds demo_env idle_inputs seeded_world RunButton"
    "responds demo_env idle_inputs seeded_world ClearAll"
    "responds demo_env idle_inputs seeded_world ClearStreamlit"
    by simp_all
  from t0 l have r0: "responds demo_env idle_inputs seeded_world (LoadButton 0)"
    by simp
  from t1 l have r1: "\<not> responds demo_env idle_inputs seeded_world (LoadButton 1)"
    by simp
  from t0 p have a: "fst (interaction demo_env idle_inputs seeded_world) = Done"
    "fst (snd (interaction demo_env idle_inputs seeded_world)) = seeded_world"
    "list_all layout (snd (snd (interaction demo_env idle_inputs seeded_world)))"
    by simp_all
  from t0 n have b: "filter fetch_or_summarize (snd (snd (interaction demo_env idle_inputs seeded_world))) = []"
    by simp
  from e l r r0 refused_load(1) r1 p a b show ?thesis by (intro conjI)
qed

text \<open>
  C5. The run flow is button-driven: in an interaction in which the Run button was
  not pressed, no call of \<open>get_news_articles\<close>, of the wrapper \<open>get_summary_cached_ui\<close> or of
  \<open>get_summary_cached_module\<close> is made.
\<close>

theorem no_fetch_or_summary_without_run:
  assumes "pressed inp \<noteq> Some RunButton" and "interaction env inp w = (st, w', ev)"
  shows "filter fetch_or_summarize ev = []"
  using interaction_idle [OF assms] filter_quiet by blast

text \<open>Pressing the button that clears the caches is such an interaction.\<close>

theorem no_fetch_or_summary_without_run_witness:
  "pressed (demo_inputs\<lparr>pressed := Some ClearAll\<rparr>) \<noteq> Some RunButton
   \<and> filter fetch_or_summarize
        (snd (snd (interaction demo_env (demo_inputs\<lparr>pressed := Some ClearAll\<rparr>) demo_world))) = []"
proof -
  have p: "pressed (demo_inputs\<lparr>pressed := Some ClearAll\<rparr>) \<noteq> Some RunButton"
    by simp
  have i: "interaction demo_env (demo_inputs\<lparr>pressed := Some ClearAll\<rparr>) demo_world
       = (fst (interaction demo_env (demo_inputs\<lparr>pressed := Some ClearAll\<rparr>) demo_world),
          fst (snd (interaction demo_env (demo_inputs\<lparr>pressed := Some ClearAll\<rparr>) demo_world)),
          snd (snd (interaction demo_env (demo_inputs\<lparr>pressed := Some ClearAll\<rparr>) demo_world)))"
    by simp
  from p no_fetch_or_summary_without_run [OF p i] show ?thesis ..
qed



text \<open>
  C7. One interaction makes at most one call of \<open>get_news_articles\<close> and at most one
  call of the summarization wrapper, and the wrapper is called only after the fetch has
  returned articles: the calls of the two, in order, are none, the fetch alone, or the
  fetch followed by the wrapper, each with the entered query and \<open>max_articles\<close>.
\<close>

theorem one_fetch_then_one_summary:
  "filter fetch_or_wrapper (snd (snd (interaction env inp w))) = []
   \<or> (\<exists>r. filter fetch_or_wrapper (snd (snd (interaction env inp w)))
            = [FetchCall (query inp) (max_articles inp) r])
   \<or> (\<exists>articles. filter fetch_or_wrapper (snd (snd (interaction env inp w)))
            = [FetchCall (query inp) (max_articles inp) (Inr articles),
               SummaryUICall (query inp) (max_articles inp) None])"
proof -
  obtain st w' ev where i: "interaction env inp w = (st, w', ev)"
    by (cases "interaction env inp w")
  obtain w2 e2 where rf: "run_flow env inp w = (w2, e2)"
    by (cases "run_flow env inp w")
  from interaction_split [OF i] rf obtain pre post where
    ev: "ev = pre @ e2 @ post" and "list_all quiet pre" "list_all quiet post"
    by auto
  then have f: "filter fetch_or_wrapper ev = filter fetch_or_wrapper e2"
    using filter_quiet by simp
  from rf have "filter fetch_or_wrapper e2 = []
     \<or> (\<exists>r. filter fetch_or_wrapper e2 = [FetchCall (query inp) (max_articles inp) r])
     \<or> (\<exists>articles. filter fetch_or_wrapper e2
            = [FetchCall (query inp) (max_articles inp) (Inr articles),
               SummaryUICall (query inp) (max_articles inp) None])"
  proof (cases rule: run_flow_shape)
    case (summarized articles mid mc r)
    from summarized(7) have "filter fetch_or_wrapper mc = []" by auto
    with summarized(5) filter_minor [OF summarized(4)] filter_summary_events [of r]
    have "filter fetch_or_wrapper e2
            = [FetchCall (query inp) (max_articles inp) (Inr articles),
               SummaryUICall (query inp) (max_articles inp) None]"
      by simp
    then show ?thesis by blast
  qed simp_all
  with f i show ?thesis by simp
qed

text \<open>
  C8. In a run in which the fetch raises, or the summarization wrapper raises, the error
  message of that failure is shown and the session history is left as it was.
\<close>

theorem failed_run_keeps_history:
  assumes "interaction env inp w = (st, w', ev)"
    and "FetchCall q n (Inl e) \<in> set ev \<or> SummaryUIReturn (Inl e) \<in> set ev"
  shows "(FetchCall q n (Inl e) \<in> set ev \<longrightarrow> ErrorShown (FetchFailed e) \<in> set ev)
         \<and> (SummaryUIReturn (Inl e) \<in> set ev \<longrightarrow> ErrorShown (SummarizationError e) \<in> set ev)
         \<and> history w' = history w"
proof -
  obtain w2 e2 where rf: "run_flow env inp w = (w2, e2)"
    by (cases "run_flow env inp w")
  from interaction_split [OF assms(1)] rf have h: "history w' = history w2"
    by auto
  from interaction_run_events [OF assms(1)] rf have sub: "set e2 \<subseteq> set ev"
    by simp
  have loud: "FetchCall q n (Inl e) \<in> set ev \<Longrightarrow> FetchCall q n (Inl e) \<in> set e2"
    "SummaryUIReturn (Inl e) \<in> set ev \<Longrightarrow> SummaryUIReturn (Inl e) \<in> set e2"
    using interaction_loud [OF assms(1)] rf by auto
  from rf have core: "(FetchCall q n (Inl e) \<in> set e2 \<longrightarrow> ErrorShown (FetchFailed e) \<in> set e2)
         \<and> (SummaryUIReturn (Inl e) \<in> set e2 \<longrightarrow> ErrorShown (SummarizationError e) \<in> set e2)
         \<and> ((FetchCall q n (Inl e) \<in> set e2 \<or> SummaryUIReturn (Inl e) \<in> set e2)
              \<longrightarrow> history w2 = history w)"
  proof (cases rule: run_flow_shape)
    case idle
    then show ?thesis by simp
  next
    case blank
    then show ?thesis by simp
  next
    case (fetch_failed x)
    then show ?thesis by simp
  next
    case no_articles
    then show ?thesis by simp
  next
    case (summarized articles mid mc r)
    have mid: "FetchCall q n (Inl e) \<notin> set mid" "SummaryUIReturn (Inl e) \<notin> set mid"
      using summarized(4) by (auto simp: list_all_iff)
    have mc: "FetchCall q n (Inl e) \<notin> set mc" "SummaryUIReturn (Inl e) \<notin> set mc"
      using summarized(7) by auto
    have tail: "FetchCall q n (Inl e) \<notin> set (summary_events r)"
      "SummaryUIReturn (Inl e) \<notin> set (summary_events r)"
      by (simp_all add: summary_events_def split: sum.splits)
    have nofetch: "FetchCall q n (Inl e) \<notin> set e2"
      unfolding summarized(5) using mid mc tail by simp
    have ret: "SummaryUIReturn (Inl e) \<in> set e2 \<Longrightarrow> r = Inl e"
      unfolding summarized(5) using mid mc tail by simp
    have err: "r = Inl e \<Longrightarrow> ErrorShown (SummarizationError e) \<in> set e2"
      unfolding summarized(5) by (simp add: summary_events_def)
    have keep: "r = Inl e \<Longrightarrow> history w2 = history w"
      using summarized(6) by (simp add: saved_def)
    from nofetch ret err keep show ?thesis by blast
  qed
  show ?thesis
  proof (intro conjI impI)
    assume "FetchCall q n (Inl e) \<in> set ev"
    then have "FetchCall q n (Inl e) \<in> set e2" by (rule loud(1))
    with core have "ErrorShown (FetchFailed e) \<in> set e2" by simp
    with sub show "ErrorShown (FetchFailed e) \<in> set ev" by (rule subsetD)
  next
    assume "SummaryUIReturn (Inl e) \<in> set ev"
    then have "SummaryUIReturn (Inl e) \<in> set e2" by (rule loud(2))
    with core have "ErrorShown (SummarizationError e) \<in> set e2" by simp
    with sub show "ErrorShown (SummarizationError e) \<in> set ev" by (rule subsetD)
  next
    from assms(2) loud have "FetchCall q n (Inl e) \<in> set e2 \<or> SummaryUIReturn (Inl e) \<in> set e2"
      by (elim disjE) simp_all
    with core have "history w2 = history w" by simp
    with h show "history w' = history w" by simp
  qed
qed

text \<open>A run with NewsAPI failing, and a run with the summarization failing.\<close>

theorem failed_run_keeps_history_witness:
  "FetchCall (lit ''ACME'') 20 (Inl (lit ''timeout''))
     \<in> set (snd (snd (interaction fetch_down_env demo_inputs demo_world)))
   \<and> ErrorShown (FetchFailed (lit ''timeout''))
     \<in> set (snd (snd (interaction fetch_down_env demo_inputs demo_world)))
   \<and> history (fst (snd (interaction fetch_down_env demo_inputs demo_world))) = history demo_world
   \<and> SummaryUIReturn (Inl (lit ''quota''))
     \<in> set (snd (snd (interaction llm_down_env demo_inputs demo_world)))
   \<and> ErrorShown (SummarizationError (lit ''quota''))
     \<in> set (snd (snd (interaction llm_down_env demo_inputs demo_world)))
   \<and> history (fst (snd (interaction llm_down_env demo_inputs demo_world))) = history demo_world"
proof -
  have f: "FetchCall (lit ''ACME'') 20 (Inl (lit ''timeout''))
     \<in> set (snd (snd (interaction fetch_down_env demo_inputs demo_world)))"
    by (simp add: fetch_down_run)
  have s: "SummaryUIReturn (Inl (lit ''quota''))
     \<in> set (snd (snd (interaction llm_down_env demo_inputs demo_world)))"
    by (simp add: llm_down_run)
  have i1: "interaction fetch_down_env demo_inputs demo_world
       = (fst (interaction fetch_down_env demo_inputs demo_world),
          fst (snd (interaction fetch_down_env demo_inputs demo_world)),
          snd (snd (interaction fetch_down_env demo_inputs demo_world)))"
    by simp
  have i2: "interaction llm_down_env demo_inputs demo_world
       = (fst (interaction llm_down_env demo_inputs demo_world),
          fst (snd (interaction llm_down_env demo_inputs demo_world)),
          snd (snd (interaction llm_down_env demo_inputs demo_world)))"
    by simp
  from failed_run_keeps_history [OF i1 disjI1, OF f] f
  have a: "ErrorShown (FetchFailed (lit ''timeout''))
     \<in> set (snd (snd (interaction fetch_down_env demo_inputs demo_world)))
   \<and> history (fst (snd (interaction fetch_down_env demo_inputs demo_world))) = history demo_world"
    by simp
  from failed_run_keeps_history [OF i2 disjI2, OF s] s
  have b: "ErrorShown (SummarizationError (lit ''quota''))
     \<in> set (snd (snd (interaction llm_down_env demo_inputs demo_world)))
   \<and> history (fst (snd (interaction llm_down_env demo_inputs demo_world))) = history demo_world"
    by simp
  from f s a b show ?thesis by simp
qed

text \<open>
  C9. When the Run button is pressed with an empty or whitespace-only query, the
  warning is shown, nothing is fetched or summarized, and the history (with everything
  else that lives across passes) stays as it was.
\<close>

theorem blank_query_warns:
  assumes "pressed inp = Some RunButton"
    and "query inp = [] \<or> list_all isspace (query inp)"
    and "interaction env inp w = (st, w', ev)"
  shows "st = Done \<and> w' = w \<and> WarningShown EmptyQuery \<in> set ev
         \<and> filter fetch_or_summarize ev = []"
proof -
  from assms(2) have blank: "query inp = [] \<or> strip (query inp) = []"
    by (auto simp: strip_empty_iff)
  have rf: "run_flow env inp w = (w, [WarningShown EmptyQuery])"
    using assms(1) blank by (simp add: run_flow_def)
  from interaction_run [OF assms(1) rf] assms(3) obtain pre post where
    r: "st = Done" "w' = w" "ev = pre @ [WarningShown EmptyQuery] @ post"
    and q: "list_all quiet pre" "list_all quiet post"
    by auto
  from filter_quiet [OF q(1)] filter_quiet [OF q(2)] r(3)
  have "filter fetch_or_summarize ev = []" by simp
  with r show ?thesis by simp
qed

text \<open>A query of a space and a tab.\<close>

theorem blank_query_warns_witness:
  "pressed (demo_inputs\<lparr>query := [32, 9]\<rparr>) = Some RunButton
   \<and> list_all isspace (query (demo_inputs\<lparr>query := [32, 9]\<rparr>))
   \<and> fst (interaction demo_env (demo_inputs\<lparr>query := [32, 9]\<rparr>) demo_world) = Done
   \<and> fst (snd (interaction demo_env (demo_inputs\<lparr>query := [32, 9]\<rparr>) demo_world)) = demo_world
   \<and> WarningShown EmptyQuery
       \<in> set (snd (snd (interaction demo_env (demo_inputs\<lparr>query := [32, 9]\<rparr>) demo_world)))
   \<and> filter fetch_or_summarize
       (snd (snd (interaction demo_env (demo_inputs\<lparr>query := [32, 9]\<rparr>) demo_world))) = []"
proof -
  have p: "pressed (demo_inputs\<lparr>query := [32, 9]\<rparr>) = Some RunButton"
    by (simp add: demo_inputs_def)
  have b: "list_all isspace (query (demo_inputs\<lparr>query := [32, 9]\<rparr>))"
    by (simp add: isspace_def)
  have i: "interaction demo_env (demo_inputs\<lparr>query := [32, 9]\<rparr>) demo_world
       = (fst (interaction demo_env (demo_inputs\<lparr>query := [32, 9]\<rparr>) demo_world),
          fst (snd (interaction demo_env (demo_inputs\<lparr>query := [32, 9]\<rparr>) demo_world)),
          snd (snd (interaction demo_env (demo_inputs\<lparr>query := [32, 9]\<rparr>) demo_world)))"
    by simp
  from blank_query_warns [OF p disjI2 i, OF b] p b show ?thesis by simp
qed

text \<open>
  C10. The \<open>Cache TTL (minutes)\<close> input has no effect: two interactions that differ
  only in \<open>cache_ttl_minutes\<close> end the same way, leave the same session and caches and
  produce the same trace. The body of the wrapper does not read \<open>ttl_override\<close>, and the
  wrapper's cache keeps an entry for 86400 seconds, whatever the input says.
\<close>

theorem cache_ttl_minutes_has_no_effect:
  "interaction env (inp\<lparr>cache_ttl_minutes := m1\<rparr>) w
     = interaction env (inp\<lparr>cache_ttl_minutes := m2\<rparr>) w
   \<and> get_summary_ui_body env b q n t1 = get_summary_ui_body env b q n t2
   \<and> cache_lookup t c k =
       (case c k of
          None \<Rightarrow> None
        | Some (v, stored) \<Rightarrow> if t < stored + 86400 then Some v else None)"
proof -
  have "same_controls (inp\<lparr>cache_ttl_minutes := m1\<rparr>) (inp\<lparr>cache_ttl_minutes := m2\<rparr>)"
    by (simp add: same_controls_def)
  then have "interaction env (inp\<lparr>cache_ttl_minutes := m1\<rparr>) w
     = interaction env (inp\<lparr>cache_ttl_minutes := m2\<rparr>) w"
    by (rule interaction_controls)
  moreover have "get_summary_ui_body env b q n t1 = get_summary_ui_body env b q n t2"
    by (simp add: get_summary_ui_body_def)
  moreover have "cache_lookup t c k =
       (case c k of
          None \<Rightarrow> None
        | Some (v, stored) \<Rightarrow> if t < stored + 86400 then Some v else None)"
    by (simp add: cache_lookup_def ui_cache_ttl_def split: option.splits)
  ultimately show ?thesis by (intro conjI)
qed

end
